theory Spec2Isabelle
  imports Complex_Main "HOL-Library.Sublist" "HOL-Library.Product_Lexorder"
begin

section \<open>Exceptions, floats and fitted models\<close>

text \<open>
  The exceptions of class \<^verbatim>\<open>Exception\<close> that the pipeline of
  \<^verbatim>\<open>improved_sarimax_model.py\<close> can meet. A computation that may raise returns
  \<open>exc + 'a\<close>, with \<open>Inl\<close> the exception raised. \<open>LibraryError\<close> stands for any
  exception raised inside a fitted model or a library routine.
\<close>

datatype exc = ValueError | KeyError | IndexError | AttributeError | LibraryError nat

text \<open>
  Floating-point columns are modelled over the reals; \<open>None\<close> is the missing value NaN.
  Scores returned by library routines may also be infinite.
\<close>

datatype npfloat = Finite real | PosInf | NegInf | NaN

text \<open>The comparison \<^verbatim>\<open>score > c\<close> of a float with a finite constant; false on NaN.\<close>

fun float_gt :: "npfloat \<Rightarrow> real \<Rightarrow> bool" where
  "float_gt (Finite r) c = (c < r)"
| "float_gt PosInf c = True"
| "float_gt NegInf c = False"
| "float_gt NaN c = False"

text \<open>
  A fitted model is an opaque object of pmdarima or statsmodels. The source only probes
  it for a \<^verbatim>\<open>predict\<close> attribute and calls \<^verbatim>\<open>predict\<close> or \<^verbatim>\<open>forecast\<close>
  with the horizon and the exogenous table; either call may raise. An attribute the
  object does not have is \<open>None\<close>. The object is not a pure function: the first
  argument of a method is the number of calls already made on the object, so that a
  repeated call may answer differently.
\<close>

datatype 'x model = Model
  (predict_attr: "(nat \<Rightarrow> nat \<Rightarrow> 'x \<Rightarrow> exc + real list) option")
  (forecast_attr: "(nat \<Rightarrow> nat \<Rightarrow> 'x \<Rightarrow> exc + real list) option")

section \<open>Timestamps\<close>

record timestamp =
  ts_year :: int
  ts_month :: int
  ts_day :: int
  ts_hour :: int

text \<open>Timestamps are compared in time order: lexicographically on their components.\<close>

definition ts_key :: "timestamp \<Rightarrow> int \<times> int \<times> int \<times> int" where
  "ts_key t = (ts_year t, ts_month t, ts_day t, ts_hour t)"

definition is_leap :: "int \<Rightarrow> bool" where
  "is_leap y = ((y mod 4 = 0 \<and> y mod 100 \<noteq> 0) \<or> y mod 400 = 0)"

definition days_in_month :: "int \<Rightarrow> int \<Rightarrow> int" where
  "days_in_month y m =
     (if m = 2 then (if is_leap y then 29 else 28)
      else if m = 4 \<or> m = 6 \<or> m = 9 \<or> m = 11 then 30
      else 31)"

text \<open>
  \<^verbatim>\<open>pd.to_datetime(str(d), format='%Y%m%d')\<close> for an integer \<open>d\<close> (line 18). The format
  has no time part, so the timestamp is at midnight. The input is an 8-digit integer
  YYYYMMDD; a string that is no calendar date, or a date outside the range of a
  nanosecond timestamp (1677-09-22 to 2262-04-11), raises. Integers with fewer or more
  digits are treated as unparsable.
\<close>

definition to_datetime :: "int \<Rightarrow> exc + timestamp" where
  "to_datetime d =
     (let y = d div 10000; m = (d div 100) mod 100; dd = d mod 100 in
      if 16770922 \<le> d \<and> d \<le> 22620411 \<and> 1 \<le> m \<and> m \<le> 12 \<and> 1 \<le> dd \<and> dd \<le> days_in_month y m
      then Inr \<lparr>ts_year = y, ts_month = m, ts_day = dd, ts_hour = 0\<rparr>
      else Inl ValueError)"

text \<open>
  Days since 1970-01-01 in the proleptic Gregorian calendar, and pandas'
  \<^verbatim>\<open>dayofweek\<close> (Monday is 0; 1970-01-01 was a Thursday).
\<close>

definition days_from_civil :: "int \<Rightarrow> int \<Rightarrow> int \<Rightarrow> int" where
  "days_from_civil y m d =
     (let y' = (if m \<le> 2 then y - 1 else y);
          era = y' div 400;
          yoe = y' - era * 400;
          doy = (153 * (if m > 2 then m - 3 else m + 9) + 2) div 5 + d - 1;
          doe = yoe * 365 + yoe div 4 - yoe div 100 + doy
      in era * 146097 + doe - 719468)"

definition dayofweek :: "timestamp \<Rightarrow> int" where
  "dayofweek t = (days_from_civil (ts_year t) (ts_month t) (ts_day t) + 3) mod 7"

section \<open>Tables\<close>

text \<open>
  The rows of the input file after \<^verbatim>\<open>read_csv\<close> (reading the file is not modelled):
  the four measured columns and the integer-coded date. A missing cell is \<open>None\<close>.
\<close>

record observation =
  Temperature :: "real option"
  humidity :: "real option"
  wind_speed :: "real option"
  irradiance :: "real option"

record raw_row = observation +
  date :: "int option"

text \<open>A row once the date is the index (line 19).\<close>

record indexed_row = observation +
  index :: timestamp

text \<open>A row of the engineered table: the columns in the order the source adds them.\<close>

record eng_row = indexed_row +
  hour :: int
  day_of_week :: int
  month :: int
  season :: int
  is_weekend :: int
  hour_sin :: real
  hour_cos :: real
  month_sin :: real
  month_cos :: real
  temp_humidity :: "real option"
  temp_wind :: "real option"
  humidity_wind :: "real option"
  irradiance_lag1 :: "real option"
  irradiance_lag24 :: "real option"
  irradiance_lag168 :: "real option"
  irradiance_rolling_mean_24h :: "real option"
  irradiance_rolling_std_24h :: "real option"

section \<open>load\_and\_preprocess\_data\<close>

text \<open>
  Lines 18--19: \<^verbatim>\<open>astype(int)\<close> raises ValueError on a missing date, and
  \<^verbatim>\<open>to_datetime\<close> on a date that does not parse; either aborts the whole load.
\<close>

fun parse_dates :: "raw_row list \<Rightarrow> exc + indexed_row list" where
  "parse_dates [] = Inr []"
| "parse_dates (r # rs) =
     (case date r of
        None \<Rightarrow> Inl ValueError
      | Some d \<Rightarrow>
          (case to_datetime d of
             Inl e \<Rightarrow> Inl e
           | Inr t \<Rightarrow>
               (case parse_dates rs of
                  Inl e \<Rightarrow> Inl e
                | Inr rows \<Rightarrow>
                    Inr (\<lparr>Temperature = Temperature r, humidity = humidity r,
                          wind_speed = wind_speed r, irradiance = irradiance r,
                          index = t\<rparr> # rows))))"

text \<open>Line 22: the rows dated 2015-01-01 to 2016-12-31, in their order.\<close>

definition range_start :: timestamp where
  "range_start = \<lparr>ts_year = 2015, ts_month = 1, ts_day = 1, ts_hour = 0\<rparr>"

definition range_end :: timestamp where
  "range_end = \<lparr>ts_year = 2016, ts_month = 12, ts_day = 31, ts_hour = 0\<rparr>"

definition in_date_range :: "timestamp \<Rightarrow> bool" where
  "in_date_range t = (ts_key range_start \<le> ts_key t \<and> ts_key t \<le> ts_key range_end)"

definition filter_date_range :: "indexed_row list \<Rightarrow> indexed_row list" where
  "filter_date_range rows = filter (\<lambda>r. in_date_range (index r)) rows"

text \<open>A product of two float cells: NaN when either is.\<close>

fun fmul :: "real option \<Rightarrow> real option \<Rightarrow> real option" where
  "fmul (Some a) (Some b) = Some (a * b)"
| "fmul a b = None"

text \<open>\<^verbatim>\<open>Series.shift(k)\<close>: the column moved down by \<open>k\<close> rows, NaN in the first \<open>k\<close>.\<close>

definition shift :: "nat \<Rightarrow> real option list \<Rightarrow> real option list" where
  "shift k xs = take (length xs) (replicate k None @ xs)"

text \<open>
  \<^verbatim>\<open>Series.rolling(window=w)\<close> followed by an aggregate: row \<open>i\<close> aggregates the
  \<open>w\<close> rows ending at \<open>i\<close> (row \<open>i\<close> included); the result is NaN while fewer than
  \<open>w\<close> rows are available or when the window holds a NaN (min\_periods is \<open>w\<close>).
\<close>

definition rolling :: "nat \<Rightarrow> (real list \<Rightarrow> real) \<Rightarrow> real option list \<Rightarrow> real option list" where
  "rolling w agg xs =
     map (\<lambda>i. if Suc i < w then None
              else (let win = take w (drop (Suc i - w) xs) in
                    if list_all (\<lambda>v. v \<noteq> None) win then Some (agg (map the win)) else None))
         [0..<length xs]"

definition mean :: "real list \<Rightarrow> real" where
  "mean vs = sum_list vs / real (length vs)"

text \<open>The sample standard deviation (pandas' default, one degree of freedom removed).\<close>

definition std :: "real list \<Rightarrow> real" where
  "std vs = sqrt (sum_list (map (\<lambda>v. (v - mean vs)\<^sup>2) vs) / (real (length vs) - 1))"

text \<open>
  Lines 25--49: row \<open>i\<close> of the table with every engineered column, before the rows
  with missing values are removed. \<open>rows\<close> is the date-filtered table.
\<close>

definition feature_row :: "indexed_row list \<Rightarrow> nat \<Rightarrow> eng_row" where
  "feature_row rows i =
     (let r = rows ! i;
          t = index r;
          irr = map irradiance rows;
          dow = dayofweek t
      in \<lparr>Temperature = Temperature r, humidity = humidity r,
          wind_speed = wind_speed r, irradiance = irradiance r,
          index = t,
          hour = ts_hour t,
          day_of_week = dow,
          month = ts_month t,
          season = (ts_month t mod 12) div 3 + 1,
          is_weekend = (if dow \<in> {5, 6} then 1 else 0),
          hour_sin = sin (2 * pi * real_of_int (ts_hour t) / 24),
          hour_cos = cos (2 * pi * real_of_int (ts_hour t) / 24),
          month_sin = sin (2 * pi * real_of_int (ts_month t) / 12),
          month_cos = cos (2 * pi * real_of_int (ts_month t) / 12),
          temp_humidity = fmul (Temperature r) (humidity r),
          temp_wind = fmul (Temperature r) (wind_speed r),
          humidity_wind = fmul (humidity r) (wind_speed r),
          irradiance_lag1 = shift 1 irr ! i,
          irradiance_lag24 = shift 24 irr ! i,
          irradiance_lag168 = shift 168 irr ! i,
          irradiance_rolling_mean_24h = rolling 24 mean irr ! i,
          irradiance_rolling_std_24h = rolling 24 std irr ! i\<rparr>)"

definition engineer_features :: "indexed_row list \<Rightarrow> eng_row list" where
  "engineer_features rows = map (feature_row rows) [0..<length rows]"

text \<open>Line 52: \<^verbatim>\<open>dropna()\<close> keeps the rows that have no NaN in any column.\<close>

definition has_nan :: "eng_row \<Rightarrow> bool" where
  "has_nan r =
     (Temperature r = None \<or> humidity r = None \<or> wind_speed r = None \<or> irradiance r = None \<or>
      temp_humidity r = None \<or> temp_wind r = None \<or> humidity_wind r = None \<or>
      irradiance_lag1 r = None \<or> irradiance_lag24 r = None \<or> irradiance_lag168 r = None \<or>
      irradiance_rolling_mean_24h r = None \<or> irradiance_rolling_std_24h r = None)"

definition dropna :: "eng_row list \<Rightarrow> eng_row list" where
  "dropna rows = filter (\<lambda>r. \<not> has_nan r) rows"

definition load_and_preprocess_data :: "raw_row list \<Rightarrow> exc + eng_row list" where
  "load_and_preprocess_data raw =
     (case parse_dates raw of
        Inl e \<Rightarrow> Inl e
      | Inr df \<Rightarrow> Inr (dropna (engineer_features (filter_date_range df))))"

section \<open>Data frames\<close>

text \<open>
  The later stages address columns by name. A data frame is its index and its named
  columns, in order; column labels are unique, as \<^verbatim>\<open>read_csv\<close> makes them.
\<close>

record dataframe =
  df_index :: "timestamp list"
  df_columns :: "(string \<times> real option list) list"

text \<open>
  The engineered table as a data frame. The four measured columns come in the order of
  the input file (here the order in which the source names them), the engineered ones
  in the order they are assigned. Integer columns are shown as numbers.
\<close>

definition to_dataframe :: "eng_row list \<Rightarrow> dataframe" where
  "to_dataframe rows =
     \<lparr>df_index = map index rows,
      df_columns =
        [(''Temperature'', map Temperature rows),
         (''humidity'', map humidity rows),
         (''wind speed'', map wind_speed rows),
         (''irradiance'', map irradiance rows),
         (''hour'', map (\<lambda>r. Some (real_of_int (hour r))) rows),
         (''day_of_week'', map (\<lambda>r. Some (real_of_int (day_of_week r))) rows),
         (''month'', map (\<lambda>r. Some (real_of_int (month r))) rows),
         (''season'', map (\<lambda>r. Some (real_of_int (season r))) rows),
         (''is_weekend'', map (\<lambda>r. Some (real_of_int (is_weekend r))) rows),
         (''hour_sin'', map (\<lambda>r. Some (hour_sin r)) rows),
         (''hour_cos'', map (\<lambda>r. Some (hour_cos r)) rows),
         (''month_sin'', map (\<lambda>r. Some (month_sin r)) rows),
         (''month_cos'', map (\<lambda>r. Some (month_cos r)) rows),
         (''temp_humidity'', map temp_humidity rows),
         (''temp_wind'', map temp_wind rows),
         (''humidity_wind'', map humidity_wind rows),
         (''irradiance_lag1'', map irradiance_lag1 rows),
         (''irradiance_lag24'', map irradiance_lag24 rows),
         (''irradiance_lag168'', map irradiance_lag168 rows),
         (''irradiance_rolling_mean_24h'', map irradiance_rolling_mean_24h rows),
         (''irradiance_rolling_std_24h'', map irradiance_rolling_std_24h rows)]\<rparr>"

text \<open>\<^verbatim>\<open>df[name]\<close>: KeyError for a label the frame does not have.\<close>

definition get_column :: "dataframe \<Rightarrow> string \<Rightarrow> exc + real option list" where
  "get_column df name =
     (case map_of (df_columns df) name of None \<Rightarrow> Inl KeyError | Some c \<Rightarrow> Inr c)"

text \<open>\<^verbatim>\<open>df[names]\<close>: the named columns in the order asked for.\<close>

fun get_columns :: "dataframe \<Rightarrow> string list \<Rightarrow> exc + (string \<times> real option list) list" where
  "get_columns df [] = Inr []"
| "get_columns df (name # names) =
     (case get_column df name of
        Inl e \<Rightarrow> Inl e
      | Inr c \<Rightarrow>
          (case get_columns df names of
             Inl e \<Rightarrow> Inl e
           | Inr cs \<Rightarrow> Inr ((name, c) # cs)))"

definition select_columns :: "dataframe \<Rightarrow> string list \<Rightarrow> exc + dataframe" where
  "select_columns df names =
     (case get_columns df names of
        Inl e \<Rightarrow> Inl e
      | Inr cs \<Rightarrow> Inr \<lparr>df_index = df_index df, df_columns = cs\<rparr>)"

text \<open>\<^verbatim>\<open>df.iloc[positions]\<close> for positions inside the frame.\<close>

definition iloc :: "dataframe \<Rightarrow> nat list \<Rightarrow> dataframe" where
  "iloc df positions =
     \<lparr>df_index = map (\<lambda>i. df_index df ! i) positions,
      df_columns = map (\<lambda>(name, c). (name, map (\<lambda>i. c ! i) positions)) (df_columns df)\<rparr>"

section \<open>Library routines\<close>

text \<open>
  The keyword arguments the source passes to \<^verbatim>\<open>auto_arima\<close>: the seasonal period, the
  stepwise switch, the information criterion, and the order bounds when given.
\<close>

record arima_search =
  seasonal_m :: nat
  stepwise :: bool
  information_criterion :: string
  order_bounds :: "(nat \<times> nat \<times> nat \<times> nat \<times> nat \<times> nat) option"

text \<open>
  The statistical routines of scikit-learn, pmdarima and statsmodels are parameters of
  the model: nothing is assumed of what they compute, and each may raise.
\<close>

record library =
  mutual_info_regression :: "real option list list \<Rightarrow> real option list \<Rightarrow> exc + real list"
  f_regression :: "real option list list \<Rightarrow> real option list \<Rightarrow> exc + npfloat list"
  auto_arima :: "arima_search \<Rightarrow> real option list \<Rightarrow> dataframe \<Rightarrow> exc + dataframe model"
  sarimax_fit :: "nat \<times> nat \<times> nat \<Rightarrow> nat \<times> nat \<times> nat \<times> nat \<Rightarrow>
                  real option list \<Rightarrow> dataframe \<Rightarrow> exc + dataframe model"
  mean_absolute_error :: "real option list \<Rightarrow> real list \<Rightarrow> exc + real"
  mean_squared_error :: "real option list \<Rightarrow> real list \<Rightarrow> exc + real"
  r2_score :: "real option list \<Rightarrow> real list \<Rightarrow> exc + real"

section \<open>feature\_selection\_analysis\<close>

text \<open>The rows in which both cells are present (pandas correlates pairwise).\<close>

fun complete_pairs :: "real option list \<Rightarrow> real option list \<Rightarrow> (real \<times> real) list" where
  "complete_pairs (Some x # xs) (Some y # ys) = (x, y) # complete_pairs xs ys"
| "complete_pairs (x # xs) (y # ys) = complete_pairs xs ys"
| "complete_pairs xs ys = []"

text \<open>
  One cell of \<^verbatim>\<open>DataFrame.corr()\<close>: Pearson's coefficient of two columns, NaN when
  no row is complete or a column is constant (the divisor is zero).
\<close>

definition pearson :: "real option list \<Rightarrow> real option list \<Rightarrow> real option" where
  "pearson xs ys =
     (let ps = complete_pairs xs ys;
          mx = mean (map fst ps);
          my = mean (map snd ps);
          sxy = sum_list (map (\<lambda>(x, y). (x - mx) * (y - my)) ps);
          sxx = sum_list (map (\<lambda>(x, y). (x - mx)\<^sup>2) ps);
          syy = sum_list (map (\<lambda>(x, y). (y - my)\<^sup>2) ps)
      in if ps = [] \<or> sqrt (sxx * syy) = 0 then None else Some (sxy / sqrt (sxx * syy)))"

text \<open>
  \<^verbatim>\<open>sort_values(ascending=False)\<close>: descending by score, NaN last. The sort of the
  model is stable; pandas leaves the order of equal scores open.
\<close>

definition desc_key_real :: "real \<Rightarrow> nat \<times> real" where
  "desc_key_real s = (0, - s)"

fun desc_key_float :: "npfloat \<Rightarrow> nat \<times> real" where
  "desc_key_float PosInf = (0, 0)"
| "desc_key_float (Finite r) = (1, - r)"
| "desc_key_float NegInf = (2, 0)"
| "desc_key_float NaN = (3, 0)"

fun desc_key_option :: "real option \<Rightarrow> nat \<times> real" where
  "desc_key_option (Some r) = (0, - r)"
| "desc_key_option None = (1, 0)"

text \<open>
  Lines 56--90. The result is the selected features and the three rankings. Python's
  \<^verbatim>\<open>list(set(...))\<close> leaves the order of the selected features open; the model lists
  them in the order of first occurrence.
\<close>

definition feature_selection_analysis ::
  "library \<Rightarrow> dataframe \<Rightarrow> string \<Rightarrow>
   exc + (string list \<times> (string \<times> real) list \<times> (string \<times> real option) list \<times> (string \<times> npfloat) list)" where
  "feature_selection_analysis lib train_data target_col =
     (let feature_cols = filter (\<lambda>col. col \<noteq> target_col) (map fst (df_columns train_data)) in
      case get_columns train_data feature_cols of
        Inl e \<Rightarrow> Inl e
      | Inr X \<Rightarrow>
      (case get_column train_data target_col of
        Inl e \<Rightarrow> Inl e
      | Inr y \<Rightarrow>
      (case mutual_info_regression lib (map snd X) y of
        Inl e \<Rightarrow> Inl e
      | Inr mi_scores \<Rightarrow>
      (if length mi_scores \<noteq> length feature_cols then Inl ValueError else
      (let mi_df = sort_key (\<lambda>(f, s). desc_key_real s) (zip feature_cols mi_scores) in
       case get_columns train_data (feature_cols @ [target_col]) of
        Inl e \<Rightarrow> Inl e
      | Inr XY \<Rightarrow>
      (let corr_target = map (\<lambda>(name, c). (name, pearson c y)) XY;
           target_corr = sort_key (\<lambda>(f, s). desc_key_option s)
                           (map (\<lambda>(name, r). (name, map_option abs r)) corr_target) in
       case f_regression lib (map snd X) y of
        Inl e \<Rightarrow> Inl e
      | Inr f_scores \<Rightarrow>
      (if length f_scores \<noteq> length feature_cols then Inl ValueError else
      (let f_df = sort_key (\<lambda>(f, s). desc_key_float s) (zip feature_cols f_scores);
           top_mi_features = map fst (filter (\<lambda>(f, s). s > 0.01) mi_df);
           top_corr_features =
             map fst (filter (\<lambda>(f, s). case s of None \<Rightarrow> False | Some r \<Rightarrow> r > 0.1) target_corr);
           top_f_features = map fst (filter (\<lambda>(f, s). float_gt s 10) f_df);
           selected_features = remdups (top_mi_features @ top_corr_features @ top_f_features)
       in Inr (selected_features, mi_df, target_corr, f_df)))))))))"

section \<open>ensemble\_forecast\<close>

text \<open>
  The body of the \<^verbatim>\<open>try\<close> block (lines 146--151): \<^verbatim>\<open>hasattr(model, 'predict')\<close>
  chooses the call; reading a missing \<^verbatim>\<open>forecast\<close> attribute raises AttributeError.
  It is the first call on the freshly fitted model.
\<close>

definition model_forecast :: "'x model \<Rightarrow> 'x \<Rightarrow> nat \<Rightarrow> exc + real list" where
  "model_forecast m test_exog n_periods =
     (case predict_attr m of
        Some p \<Rightarrow> p 0 n_periods test_exog
      | None \<Rightarrow>
          (case forecast_attr m of
             Some f \<Rightarrow> f 0 n_periods test_exog
           | None \<Rightarrow> Inl AttributeError))"

text \<open>
  The first loop (lines 144--156): a forecast that was produced is appended, an
  exception is caught and the model skipped. Console output is not modelled.
\<close>

fun collect_forecasts :: "'x model list \<Rightarrow> 'x \<Rightarrow> nat \<Rightarrow> real list list" where
  "collect_forecasts [] test_exog n_periods = []"
| "collect_forecasts (m # ms) test_exog n_periods =
     (case model_forecast m test_exog n_periods of
        Inr forecast \<Rightarrow> forecast # collect_forecasts ms test_exog n_periods
      | Inl e \<Rightarrow> collect_forecasts ms test_exog n_periods)"

definition weights :: "real list" where
  "weights = [0.4, 0.3, 0.3]"

text \<open>
  numpy's in-place \<^verbatim>\<open>acc += v\<close> on one-dimensional arrays: element-wise when the
  lengths agree, \<open>v\<close> broadcast when it has one element, ValueError otherwise. This
  statement stands outside the \<^verbatim>\<open>try\<close> block, so its exception escapes.
\<close>

definition np_iadd :: "real list \<Rightarrow> real list \<Rightarrow> exc + real list" where
  "np_iadd acc v =
     (if length v = length acc then Inr (map2 (+) acc v)
      else if length v = 1 then Inr (map (\<lambda>a. a + hd v) acc)
      else Inl ValueError)"

text \<open>
  The second loop (lines 163--167) over \<^verbatim>\<open>enumerate(forecasts)\<close>: \<open>i\<close> is the
  position among the forecasts that were produced, \<open>cnt\<close> is \<^verbatim>\<open>len(forecasts)\<close>.
\<close>

fun weighted_sum :: "real list list \<Rightarrow> nat \<Rightarrow> nat \<Rightarrow> real list \<Rightarrow> exc + real list" where
  "weighted_sum [] i cnt acc = Inr acc"
| "weighted_sum (forecast # rest) i cnt acc =
     (case np_iadd acc
             (if i < length weights then map (\<lambda>v. (weights ! i) * v) forecast
              else map (\<lambda>v. v / real cnt) forecast) of
        Inl e \<Rightarrow> Inl e
      | Inr acc' \<Rightarrow> weighted_sum rest (Suc i) cnt acc')"

text \<open>\<open>Inr None\<close> is the return value \<^verbatim>\<open>None\<close> of line 171.\<close>

definition ensemble_forecast :: "'x model list \<Rightarrow> 'x \<Rightarrow> nat \<Rightarrow> exc + real list option" where
  "ensemble_forecast models test_exog n_periods =
     (case collect_forecasts models test_exog n_periods of
        [] \<Rightarrow> Inr None
      | f0 # fs \<Rightarrow>
          (case weighted_sum (f0 # fs) 0 (length (f0 # fs)) (replicate (length f0) 0) of
             Inl e \<Rightarrow> Inl e
           | Inr r \<Rightarrow> Inr (Some r)))"

section \<open>cross\_validation\_sarimax\<close>

text \<open>Python's \<^verbatim>\<open>range(start, stop, step)\<close> for a positive step.\<close>

definition range_step :: "nat \<Rightarrow> nat \<Rightarrow> nat \<Rightarrow> nat list" where
  "range_step start stop step =
     map (\<lambda>j. start + j * step) [0..<(stop - start + step - 1) div step]"

text \<open>
  scikit-learn's \<^verbatim>\<open>TimeSeriesSplit(n_splits).split(data)\<close> on \<open>n_samples\<close> rows, with
  its defaults (no gap, no cap on the training size, test size
  \<open>n_samples div (n_splits + 1)\<close>): the list of (training positions, validation
  positions). It raises ValueError for fewer than two splits and for too few rows.
\<close>

definition time_series_split :: "nat \<Rightarrow> nat \<Rightarrow> exc + (nat list \<times> nat list) list" where
  "time_series_split n_splits n_samples =
     (if n_splits \<le> 1 then Inl ValueError
      else
        (let n_folds = n_splits + 1;
             test_size = n_samples div n_folds
         in if n_folds > n_samples then Inl ValueError
            else if n_samples \<le> test_size * n_splits then Inl ValueError
            else Inr (map (\<lambda>test_start.
                            ([0..<test_start], [test_start..<test_start + test_size]))
                          (range_step (n_samples - n_splits * test_size) n_samples test_size))))"

text \<open>The folds of line 180--182: the two slices \<^verbatim>\<open>data.iloc[...]\<close> of every split.\<close>

definition cv_folds :: "dataframe \<Rightarrow> nat \<Rightarrow> exc + (dataframe \<times> dataframe) list" where
  "cv_folds data n_splits =
     (case time_series_split n_splits (length (df_index data)) of
        Inl e \<Rightarrow> Inl e
      | Inr splits \<Rightarrow> Inr (map (\<lambda>(train_idx, val_idx). (iloc data train_idx, iloc data val_idx)) splits))"

definition cv_search :: arima_search where
  "cv_search = \<lparr>seasonal_m = 24, stepwise = True, information_criterion = ''aic'',
                order_bounds = None\<rparr>"

text \<open>The three metrics of one forecast (lines 200--202, 255--257 and 329--331).\<close>

definition evaluate :: "library \<Rightarrow> real option list \<Rightarrow> real list \<Rightarrow> exc + real \<times> real \<times> real" where
  "evaluate lib actual forecast =
     (case mean_absolute_error lib actual forecast of
        Inl e \<Rightarrow> Inl e
      | Inr mae \<Rightarrow>
      (case mean_squared_error lib actual forecast of
        Inl e \<Rightarrow> Inl e
      | Inr mse \<Rightarrow>
      (case r2_score lib actual forecast of
        Inl e \<Rightarrow> Inl e
      | Inr r2 \<Rightarrow> Inr (mae, sqrt mse, r2))))"

text \<open>The body of the loop (lines 181--204) for one fold; any exception escapes.\<close>

definition cv_fold_score ::
  "library \<Rightarrow> string \<Rightarrow> string list \<Rightarrow> dataframe \<times> dataframe \<Rightarrow> exc + real \<times> real \<times> real" where
  "cv_fold_score lib target_col exog_features split =
     (case split of (train_cv, val_cv) \<Rightarrow>
      (case get_column train_cv target_col of
        Inl e \<Rightarrow> Inl e
      | Inr y \<Rightarrow>
      (case select_columns train_cv exog_features of
        Inl e \<Rightarrow> Inl e
      | Inr X \<Rightarrow>
      (case auto_arima lib cv_search y X of
        Inl e \<Rightarrow> Inl e
      | Inr m \<Rightarrow>
      (case predict_attr m of
        None \<Rightarrow> Inl AttributeError
      | Some p \<Rightarrow>
      (case select_columns val_cv exog_features of
        Inl e \<Rightarrow> Inl e
      | Inr Xv \<Rightarrow>
      (case p 0 (length (df_index val_cv)) Xv of
        Inl e \<Rightarrow> Inl e
      | Inr forecast \<Rightarrow>
      (case get_column val_cv target_col of
        Inl e \<Rightarrow> Inl e
      | Inr actual \<Rightarrow> evaluate lib actual forecast))))))))"

fun cv_scores_of ::
  "library \<Rightarrow> string \<Rightarrow> string list \<Rightarrow> (dataframe \<times> dataframe) list \<Rightarrow> exc + (real \<times> real \<times> real) list" where
  "cv_scores_of lib target_col exog_features [] = Inr []"
| "cv_scores_of lib target_col exog_features (split # folds) =
     (case cv_fold_score lib target_col exog_features split of
        Inl e \<Rightarrow> Inl e
      | Inr s \<Rightarrow>
          (case cv_scores_of lib target_col exog_features folds of
             Inl e \<Rightarrow> Inl e
           | Inr ss \<Rightarrow> Inr (s # ss)))"

definition cross_validation_sarimax ::
  "library \<Rightarrow> dataframe \<Rightarrow> string \<Rightarrow> string list \<Rightarrow> nat \<Rightarrow> exc + (real \<times> real \<times> real) list" where
  "cross_validation_sarimax lib data target_col exog_features n_splits =
     (case cv_folds data n_splits of
        Inl e \<Rightarrow> Inl e
      | Inr folds \<Rightarrow> cv_scores_of lib target_col exog_features folds)"

section \<open>advanced\_sarimax\_tuning\<close>

definition wide_search :: "nat \<Rightarrow> arima_search" where
  "wide_search m = \<lparr>seasonal_m = m, stepwise = False, information_criterion = ''aic'',
                    order_bounds = Some (5, 5, 2, 3, 3, 1)\<rparr>"

definition bic_search :: "nat \<Rightarrow> arima_search" where
  "bic_search m = \<lparr>seasonal_m = m, stepwise = True, information_criterion = ''bic'',
                   order_bounds = None\<rparr>"

text \<open>Lines 92--138: three fits on the same data; an exception of any of them escapes.\<close>

definition advanced_sarimax_tuning ::
  "library \<Rightarrow> dataframe \<Rightarrow> string \<Rightarrow> string list \<Rightarrow> nat \<Rightarrow> exc + dataframe model list" where
  "advanced_sarimax_tuning lib train_data target_col exog_features seasonal_periods =
     (case get_column train_data target_col of
        Inl e \<Rightarrow> Inl e
      | Inr y \<Rightarrow>
      (case select_columns train_data exog_features of
        Inl e \<Rightarrow> Inl e
      | Inr X \<Rightarrow>
      (case auto_arima lib (wide_search seasonal_periods) y X of
        Inl e \<Rightarrow> Inl e
      | Inr model1 \<Rightarrow>
      (case auto_arima lib (bic_search seasonal_periods) y X of
        Inl e \<Rightarrow> Inl e
      | Inr model2 \<Rightarrow>
      (case sarimax_fit lib (1, 1, 1) (1, 1, 1, seasonal_periods) y X of
        Inl e \<Rightarrow> Inl e
      | Inr model3 \<Rightarrow> Inr [model1, model2, model3])))))"

section \<open>main\<close>

text \<open>
  Lines 249--338: the ensemble forecast and its evaluation, and the fallback when the
  ensemble returns \<^verbatim>\<open>None\<close>. The fallback takes \<^verbatim>\<open>models[0]\<close> and calls its
  \<^verbatim>\<open>predict\<close>; when the model has that attribute, the loop of \<open>ensemble_forecast\<close> has
  called it once already, so this is the second call. Plotting and writing the result
  files are not modelled.
\<close>

definition main_forecast ::
  "library \<Rightarrow> 'x model list \<Rightarrow> 'x \<Rightarrow> real option list \<Rightarrow> exc + real \<times> real \<times> real" where
  "main_forecast lib models test_exog test_irradiance =
     (case ensemble_forecast models test_exog (length test_irradiance) of
        Inl e \<Rightarrow> Inl e
      | Inr (Some ensemble_forecast_result) \<Rightarrow> evaluate lib test_irradiance ensemble_forecast_result
      | Inr None \<Rightarrow>
          (case models of
             [] \<Rightarrow> Inl IndexError
           | best_model # others \<Rightarrow>
               (case predict_attr best_model of
                  None \<Rightarrow> Inl AttributeError
                | Some p \<Rightarrow>
                    (case p 1 (length test_irradiance) test_exog of
                       Inl e \<Rightarrow> Inl e
                     | Inr forecast \<Rightarrow> evaluate lib test_irradiance forecast))))"

text \<open>
  Lines 208--251: the whole run on the rows of the input file. The training share
  \<^verbatim>\<open>int(len(df) * 0.8)\<close> is taken over the reals.
\<close>

definition main :: "library \<Rightarrow> raw_row list \<Rightarrow> exc + real \<times> real \<times> real" where
  "main lib raw =
     (case load_and_preprocess_data raw of
        Inl e \<Rightarrow> Inl e
      | Inr df \<Rightarrow>
      (let train_size = nat \<lfloor>real (length df) * 0.8\<rfloor>;
           train = to_dataframe (take train_size df);
           test = to_dataframe (drop train_size df)
       in case feature_selection_analysis lib train ''irradiance'' of
        Inl e \<Rightarrow> Inl e
      | Inr (selected_features, mi_df, target_corr, f_df) \<Rightarrow>
      (case select_columns train selected_features of
        Inl e \<Rightarrow> Inl e
      | Inr train_exog \<Rightarrow>
      (case select_columns test selected_features of
        Inl e \<Rightarrow> Inl e
      | Inr test_exog \<Rightarrow>
      (case cross_validation_sarimax lib train ''irradiance'' selected_features 5 of
        Inl e \<Rightarrow> Inl e
      | Inr cv_scores \<Rightarrow>
      (case advanced_sarimax_tuning lib train ''irradiance'' selected_features 24 of
        Inl e \<Rightarrow> Inl e
      | Inr models \<Rightarrow>
      (case get_column test ''irradiance'' of
        Inl e \<Rightarrow> Inl e
      | Inr test_irradiance \<Rightarrow> main_forecast lib models test_exog test_irradiance)))))))"

section \<open>Example inputs\<close>

text \<open>Models used to instantiate the theorems: one whose calls always raise, one that
  forecasts a constant through \<^verbatim>\<open>forecast\<close> only, and one whose \<^verbatim>\<open>predict\<close> raises
  on the first call and forecasts a constant afterwards.\<close>

definition failing_model :: "'x model" where
  "failing_model = Model (Some (\<lambda>k n x. Inl (LibraryError 0))) None"


definition flaky_model :: "real \<Rightarrow> 'x model" where
  "flaky_model c =
     Model (Some (\<lambda>k n x. if k = 0 then Inl (LibraryError 0) else Inr (replicate n c))) None"

text \<open>A library whose scores are all zero and whose fits return the failing model.\<close>

definition example_library :: library where
  "example_library =
     \<lparr>mutual_info_regression = (\<lambda>X y. Inr (map (\<lambda>c. 0) X)),
      f_regression = (\<lambda>X y. Inr (map (\<lambda>c. Finite 0) X)),
      auto_arima = (\<lambda>s y X. Inr failing_model),
      sarimax_fit = (\<lambda>ord sord y X. Inr failing_model),
      mean_absolute_error = (\<lambda>a f. Inr 0),
      mean_squared_error = (\<lambda>a f. Inr 0),
      r2_score = (\<lambda>a f. Inr 1)\<rparr>"

text \<open>A row of the input with no missing measurement.\<close>

definition no_missing :: "'a observation_scheme \<Rightarrow> bool" where
  "no_missing r =
     (Temperature r \<noteq> None \<and> humidity r \<noteq> None \<and> wind_speed r \<noteq> None \<and> irradiance r \<noteq> None)"

text \<open>The input columns and the index of an engineered row.\<close>

definition base_row :: "eng_row \<Rightarrow> indexed_row" where
  "base_row r =
     \<lparr>Temperature = Temperature r, humidity = humidity r, wind_speed = wind_speed r,
      irradiance = irradiance r, index = index r\<rparr>"

text \<open>How many rows a load removes, when it returns.\<close>

definition rows_dropped :: "raw_row list \<Rightarrow> nat option" where
  "rows_dropped raw =
     (case load_and_preprocess_data raw of
        Inl e \<Rightarrow> None
      | Inr out \<Rightarrow> Some (length raw - length out))"

text \<open>One measurement dated 2015-06-01, and a week of 168 copies of it.\<close>

definition base_raw :: raw_row where
  "base_raw = \<lparr>Temperature = Some 25, humidity = Some 40, wind_speed = Some 3,
               irradiance = Some 500, date = Some 20150601\<rparr>"

definition base_indexed :: indexed_row where
  "base_indexed = \<lparr>Temperature = Some 25, humidity = Some 40, wind_speed = Some 3,
                   irradiance = Some 500,
                   index = \<lparr>ts_year = 2015, ts_month = 6, ts_day = 1, ts_hour = 0\<rparr>\<rparr>"

definition week_raw :: "raw_row list" where
  "week_raw = replicate 168 base_raw"

definition week_indexed :: "indexed_row list" where
  "week_indexed = replicate 168 base_indexed"

text \<open>
  The scenario of 48 hourly rows over two days: a sinusoidal target with period 24 and
  one covariate carrying noise.
\<close>

definition scenario48 :: "raw_row list" where
  "scenario48 =
     map (\<lambda>i. \<lparr>Temperature = Some 20, humidity = Some 50,
                wind_speed = Some (real ((7 * i) mod 5)),
                irradiance = Some (sin (2 * pi * real i / 24)),
                date = Some (if i < 24 then 20150101 else 20150102)\<rparr>)
         [0..<48]"

text \<open>
  Two tables of 169 rows that differ in one cell only, the temperature of the last row;
  two tables of 170 rows that agree on their first 169 rows, with their rows once the
  dates are parsed; and a table of 169 rows whose first row is dated 2014-12-31.
\<close>

definition warm_raw :: raw_row where
  "warm_raw = base_raw\<lparr>Temperature := Some 30\<rparr>"

definition leak_table_a :: "raw_row list" where
  "leak_table_a = week_raw @ [base_raw]"

definition leak_table_b :: "raw_row list" where
  "leak_table_b = week_raw @ [warm_raw]"

definition later_table_a :: "raw_row list" where
  "later_table_a = week_raw @ [base_raw, base_raw\<lparr>irradiance := Some 600\<rparr>]"

definition later_table_b :: "raw_row list" where
  "later_table_b = week_raw @ [base_raw, base_raw\<lparr>humidity := Some 10, date := Some 20150602\<rparr>]"

definition later_indexed_a :: "indexed_row list" where
  "later_indexed_a = week_indexed @ [base_indexed, base_indexed\<lparr>irradiance := Some 600\<rparr>]"

definition later_indexed_b :: "indexed_row list" where
  "later_indexed_b =
     week_indexed @
     [base_indexed,
      base_indexed\<lparr>humidity := Some 10,
                   index := \<lparr>ts_year = 2015, ts_month = 6, ts_day = 2, ts_hour = 0\<rparr>\<rparr>]"

definition early_table :: "raw_row list" where
  "early_table = base_raw\<lparr>date := Some 20141231\<rparr> # week_raw"

text \<open>
  Two data frames for the cross-validation: 48 hourly rows of two days, whose
  timestamps are the two midnights, and 12 rows of 12 successive days.
\<close>

definition day1 :: timestamp where
  "day1 = \<lparr>ts_year = 2015, ts_month = 1, ts_day = 1, ts_hour = 0\<rparr>"

definition day2 :: timestamp where
  "day2 = \<lparr>ts_year = 2015, ts_month = 1, ts_day = 2, ts_hour = 0\<rparr>"

definition two_days :: dataframe where
  "two_days =
     \<lparr>df_index = replicate 24 day1 @ replicate 24 day2,
      df_columns = [(''irradiance'', map (\<lambda>i. Some (real i)) [0..<48])]\<rparr>"

definition daily12 :: dataframe where
  "daily12 =
     \<lparr>df_index = map (\<lambda>d. \<lparr>ts_year = 2015, ts_month = 1, ts_day = int d, ts_hour = 0\<rparr>) [1..<13],
      df_columns = [(''irradiance'', map (\<lambda>i. Some (real i)) [0..<12])]\<rparr>"

text \<open>
  A training frame of six rows for the feature selection: a constant temperature and a
  target that varies.
\<close>

definition selection_frame :: dataframe where
  "selection_frame =
     \<lparr>df_index = replicate 6 day1,
      df_columns =
        [(''Temperature'', [Some 20, Some 20, Some 20, Some 20, Some 20, Some 20]),
         (''irradiance'', [Some 100, Some 300, Some 100, Some 300, Some 100, Some 300])]\<rparr>"

section \<open>Properties of ensemble\_forecast\<close>

lemma collect_forecasts_all_fail:
  "\<forall>m \<in> set models. isl (model_forecast m test_exog n) \<Longrightarrow>
   collect_forecasts models test_exog n = []"
proof (induction models)
  case Nil
  show ?case by simp
next
  case (Cons m ms)
  from Cons.prems have "isl (model_forecast m test_exog n)" by simp
  then obtain e where "model_forecast m test_exog n = Inl e"
    by (cases "model_forecast m test_exog n") simp_all
  moreover from Cons have "collect_forecasts ms test_exog n = []" by simp
  ultimately show ?case by simp
qed

lemma collect_forecasts_empty_iff:
  "collect_forecasts models test_exog n = [] \<longleftrightarrow>
   (\<forall>m \<in> set models. isl (model_forecast m test_exog n))"
proof
  show "collect_forecasts models test_exog n = [] \<Longrightarrow>
        \<forall>m \<in> set models. isl (model_forecast m test_exog n)"
    by (induction models) (auto split: sum.splits)
next
  show "\<forall>m \<in> set models. isl (model_forecast m test_exog n) \<Longrightarrow>
        collect_forecasts models test_exog n = []"
    by (rule collect_forecasts_all_fail)
qed




lemma ensemble_forecast_None_iff:
  "ensemble_forecast models test_exog n = Inr None \<longleftrightarrow>
   collect_forecasts models test_exog n = []"
  by (auto simp: ensemble_forecast_def split: list.splits sum.splits)

text \<open>
  C7. If the forecast attempt of every model in the list raises, \<open>ensemble_forecast\<close>
  returns the null result \<open>None\<close>; no exception escapes.
\<close>

theorem ensemble_forecast_total_failure:
  assumes "\<forall>m \<in> set models. isl (model_forecast m test_exog n_periods)"
  shows "ensemble_forecast models test_exog n_periods = Inr None"
proof -
  have "collect_forecasts models test_exog n_periods = []"
    using assms by (rule collect_forecasts_all_fail)
  then show ?thesis by (simp add: ensemble_forecast_def)
qed

theorem ensemble_forecast_total_failure_witness:
  "isl (model_forecast (failing_model :: unit model) () 5) \<and>
   ensemble_forecast [failing_model, failing_model, failing_model] () 5 = Inr None"
proof -
  have f: "isl (model_forecast (failing_model :: unit model) () 5)"
    by (simp add: model_forecast_def failing_model_def)
  then have "\<forall>m \<in> set [failing_model, failing_model, failing_model :: unit model].
               isl (model_forecast m () 5)"
    by simp
  from ensemble_forecast_total_failure [OF this] f show ?thesis by simp
qed




section \<open>Properties of main\<close>

text \<open>
  What \<open>main\<close> does after a null result: every model's attempt has raised, and the
  run goes on with the first model of the list without looking at that, calling its
  \<^verbatim>\<open>predict\<close> a second time.
\<close>

lemma main_forecast_after_null:
  assumes "ensemble_forecast models test_exog (length test_irradiance) = Inr None"
  shows "(\<forall>m \<in> set models. isl (model_forecast m test_exog (length test_irradiance))) \<and>
         main_forecast lib models test_exog test_irradiance =
           (case models of
              [] \<Rightarrow> Inl IndexError
            | best_model # others \<Rightarrow>
                (case predict_attr best_model of
                   None \<Rightarrow> Inl AttributeError
                 | Some p \<Rightarrow>
                     (case p 1 (length test_irradiance) test_exog of
                        Inl e \<Rightarrow> Inl e
                      | Inr forecast \<Rightarrow> evaluate lib test_irradiance forecast)))"
proof
  from assms have "collect_forecasts models test_exog (length test_irradiance) = []"
    by (simp add: ensemble_forecast_None_iff)
  then show "\<forall>m \<in> set models. isl (model_forecast m test_exog (length test_irradiance))"
    by (simp add: collect_forecasts_empty_iff)
next
  show "main_forecast lib models test_exog test_irradiance =
           (case models of
              [] \<Rightarrow> Inl IndexError
            | best_model # others \<Rightarrow>
                (case predict_attr best_model of
                   None \<Rightarrow> Inl AttributeError
                 | Some p \<Rightarrow>
                     (case p 1 (length test_irradiance) test_exog of
                        Inl e \<Rightarrow> Inl e
                      | Inr forecast \<Rightarrow> evaluate lib test_irradiance forecast)))"
    using assms by (simp add: main_forecast_def)
qed

text \<open>
  A model whose \<^verbatim>\<open>predict\<close> answers the same call the same way raised in the loop of
  \<open>ensemble_forecast\<close>, so the fallback call on it raises the same exception: after a
  null result, a first model that has \<^verbatim>\<open>predict\<close> and is deterministic never
  yields a forecast.
\<close>

lemma main_forecast_fallback_repeats:
  assumes "ensemble_forecast (best_model # others) test_exog (length test_irradiance) = Inr None"
    and "predict_attr best_model = Some p"
    and "p 1 (length test_irradiance) test_exog = p 0 (length test_irradiance) test_exog"
  shows "\<exists>e. main_forecast lib (best_model # others) test_exog test_irradiance = Inl e"
proof -
  from main_forecast_after_null [OF assms(1)]
  have "isl (model_forecast best_model test_exog (length test_irradiance))" by simp
  with assms(2) have "isl (p 0 (length test_irradiance) test_exog)"
    by (simp add: model_forecast_def)
  then obtain e where "p 0 (length test_irradiance) test_exog = Inl e"
    by (cases "p 0 (length test_irradiance) test_exog") simp_all
  with assms show ?thesis by (simp add: main_forecast_def)
qed

text \<open>
  The fallback yields a forecast only when the second call answers differently from the
  first, as with a model whose \<^verbatim>\<open>predict\<close> raises once and forecasts 7 afterwards.
\<close>

lemma main_forecast_fallback_flaky:
  "ensemble_forecast [flaky_model 7, failing_model, failing_model :: unit model] ()
     (length [Some 1, Some (2::real)]) = Inr None \<and>
   main_forecast example_library [flaky_model 7, failing_model, failing_model] ()
     [Some 1, Some 2] = evaluate example_library [Some 1, Some 2] [7, 7]"
  by (simp add: main_forecast_def ensemble_forecast_def model_forecast_def failing_model_def
      flaky_model_def numeral_2_eq_2)

text \<open>
  C8. The claim that the fallback produces the final forecast from the first model does
  not hold of the code. Line 326 takes \<^verbatim>\<open>models[0]\<close> under the comment ``Use first
  successful model'', but in this branch no model has succeeded, and line 327 repeats,
  outside any \<^verbatim>\<open>try\<close> block, the call that has just raised. With three models whose
  \<^verbatim>\<open>predict\<close> always raises, the ensemble returns the null result and the run ends
  with the exception of the first model; no forecast is produced.
\<close>

theorem main_forecast_fallback_raises:
  "ensemble_forecast [failing_model, failing_model, failing_model :: unit model] ()
     (length [Some 1, Some (2::real)]) = Inr None \<and>
   main_forecast example_library [failing_model, failing_model, failing_model] ()
     [Some 1, Some 2] = Inl (LibraryError 0)"
  by (simp add: main_forecast_def ensemble_forecast_def model_forecast_def failing_model_def)

section \<open>Lemmas on the feature builder\<close>

lemma shift_length: "length (shift k xs) = length xs"
  by (simp add: shift_def)

lemma shift_nth:
  "i < length xs \<Longrightarrow> shift k xs ! i = (if i < k then None else xs ! (i - k))"
  by (simp add: shift_def nth_append)

lemma rolling_length: "length (rolling w agg xs) = length xs"
  by (simp add: rolling_def)

lemma rolling_nth:
  "i < length xs \<Longrightarrow>
   rolling w agg xs ! i =
     (if Suc i < w then None
      else (let win = take w (drop (Suc i - w) xs) in
            if list_all (\<lambda>v. v \<noteq> None) win then Some (agg (map the win)) else None))"
  by (simp add: rolling_def)

lemma shift_nth_append:
  assumes "i < length xs"
  shows "shift k (xs @ ys) ! i = shift k xs ! i"
proof -
  from assms have "i - k < length xs" by simp
  with assms show ?thesis by (simp add: shift_nth nth_append)
qed

lemma rolling_nth_append:
  "i < length xs \<Longrightarrow> rolling w agg (xs @ ys) ! i = rolling w agg xs ! i"
proof -
  assume i: "i < length xs"
  show ?thesis
  proof (cases "Suc i < w")
    case True
    with i show ?thesis by (simp add: rolling_nth)
  next
    case False
    then have "w \<le> Suc i" by simp
    with i have "take w (drop (Suc i - w) (xs @ ys)) = take w (drop (Suc i - w) xs)"
      by simp
    with i False show ?thesis by (simp add: rolling_nth)
  qed
qed

lemma feature_row_append:
  "i < length rows \<Longrightarrow> feature_row (rows @ later) i = feature_row rows i"
  by (simp add: feature_row_def Let_def nth_append shift_nth_append rolling_nth_append)

lemma engineer_features_append:
  "engineer_features (rows @ later) =
   engineer_features rows @
   map (feature_row (rows @ later)) [length rows..<length rows + length later]"
proof -
  have a: "map (feature_row (rows @ later)) [0..<length rows] =
           map (feature_row rows) [0..<length rows]"
    by (rule map_cong) (simp_all add: feature_row_append)
  have b: "[0..<length rows + length later] =
           [0..<length rows] @ [length rows..<length rows + length later]"
    by (rule upt_add_eq_append) simp
  show ?thesis
    unfolding engineer_features_def length_append b map_append a ..
qed

lemma parse_dates_append:
  "parse_dates (xs @ ys) =
     (case parse_dates xs of
        Inl e \<Rightarrow> Inl e
      | Inr rx \<Rightarrow> (case parse_dates ys of Inl e \<Rightarrow> Inl e | Inr ry \<Rightarrow> Inr (rx @ ry)))"
  by (induction xs) (auto split: option.splits sum.splits)

lemma parse_dates_length:
  "parse_dates raw = Inr rows \<Longrightarrow> length rows = length raw"
  by (induction raw arbitrary: rows) (auto split: option.splits sum.splits)

lemma to_datetime_hour: "to_datetime d = Inr t \<Longrightarrow> ts_hour t = 0"
  by (auto simp: to_datetime_def Let_def split: if_splits)

lemma parse_dates_Cons:
  assumes "parse_dates (r # rs) = Inr rows"
  obtains d t rows' where "date r = Some d" and "to_datetime d = Inr t"
    and "parse_dates rs = Inr rows'"
    and "rows = \<lparr>Temperature = Temperature r, humidity = humidity r,
                   wind_speed = wind_speed r, irradiance = irradiance r, index = t\<rparr> # rows'"
  using assms by (auto split: option.splits sum.splits)

lemma parse_dates_hour:
  "parse_dates raw = Inr rows \<Longrightarrow> \<forall>r \<in> set rows. ts_hour (index r) = 0"
proof (induction raw arbitrary: rows)
  case Nil
  then show ?case by simp
next
  case (Cons r rs)
  from Cons.prems obtain d t rows' where t: "to_datetime d = Inr t"
    and p: "parse_dates rs = Inr rows'"
    and rows: "rows = \<lparr>Temperature = Temperature r, humidity = humidity r,
                   wind_speed = wind_speed r, irradiance = irradiance r, index = t\<rparr> # rows'"
    by (rule parse_dates_Cons)
  from t have "ts_hour t = 0" by (rule to_datetime_hour)
  moreover from Cons.IH [OF p] have "\<forall>r \<in> set rows'. ts_hour (index r) = 0" .
  ultimately show ?case using rows by simp
qed

lemma filter_date_range_subset: "set (filter_date_range rows) \<subseteq> set rows"
  by (auto simp: filter_date_range_def)

lemma engineer_features_length: "length (engineer_features rows) = length rows"
  by (simp add: engineer_features_def)

lemma engineer_features_nth:
  "i < length rows \<Longrightarrow> engineer_features rows ! i = feature_row rows i"
  by (simp add: engineer_features_def)

lemma in_dropna_engineer:
  "r \<in> set (dropna (engineer_features rows)) \<Longrightarrow>
   \<exists>i < length rows. r = feature_row rows i \<and> \<not> has_nan r"
  by (auto simp: dropna_def engineer_features_def)

lemma load_output_rows:
  assumes "load_and_preprocess_data raw = Inr out" and "r \<in> set out"
  obtains rows i where "parse_dates raw = Inr rows"
    and "i < length (filter_date_range rows)"
    and "r = feature_row (filter_date_range rows) i" and "\<not> has_nan r"
proof -
  from assms(1) obtain rows where p: "parse_dates raw = Inr rows"
    and o: "out = dropna (engineer_features (filter_date_range rows))"
    by (auto simp: load_and_preprocess_data_def split: sum.splits)
  from assms(2) o obtain i where "i < length (filter_date_range rows)"
    "r = feature_row (filter_date_range rows) i" "\<not> has_nan r"
    using in_dropna_engineer by blast
  with p that show thesis by blast
qed

lemma filter_upt_ge: "filter (\<lambda>i. k \<le> i) [0..<n] = [k..<n]"
proof (induction n)
  case 0
  show ?case by simp
next
  case (Suc n)
  then show ?case by (cases "k \<le> n") (simp_all add: not_le)
qed

lemma drop_engineer_features:
  "drop k (engineer_features rows) = map (feature_row rows) [k..<length rows]"
  by (simp add: engineer_features_def drop_map)

lemma lag168_early:
  assumes "i < length rows" and "i < 168"
  shows "has_nan (feature_row rows i)"
proof -
  from assms have "irradiance_lag168 (feature_row rows i) = None"
    by (simp add: feature_row_def Let_def shift_nth)
  then show ?thesis by (simp add: has_nan_def)
qed

lemma rolling_complete:
  assumes "i < length xs" and "w \<le> Suc i" and "\<forall>v \<in> set xs. v \<noteq> None"
  shows "rolling w agg xs ! i \<noteq> None"
proof -
  have "set (take w (drop (Suc i - w) xs)) \<subseteq> set xs"
    by (meson set_take_subset set_drop_subset subset_trans)
  with assms(3) have "list_all (\<lambda>v. v \<noteq> None) (take w (drop (Suc i - w) xs))"
    by (auto simp: list_all_iff)
  with assms(1,2) show ?thesis by (simp add: rolling_nth Let_def)
qed

lemma shift_complete:
  assumes "i < length xs" and "k \<le> i" and "\<forall>v \<in> set xs. v \<noteq> None"
  shows "shift k xs ! i \<noteq> None"
proof -
  from assms(1) have "xs ! (i - k) \<in> set xs" by simp
  with assms show ?thesis by (simp add: shift_nth)
qed

lemma fmul_complete: "a \<noteq> None \<Longrightarrow> b \<noteq> None \<Longrightarrow> fmul a b \<noteq> None"
  by (cases a; cases b) simp_all

lemma complete_late:
  assumes "i < length rows" and "168 \<le> i" and "\<forall>r \<in> set rows. no_missing r"
  shows "\<not> has_nan (feature_row rows i)"
proof -
  let ?irr = "map irradiance rows"
  from assms(3) have irr: "\<forall>v \<in> set ?irr. v \<noteq> None" by (auto simp: no_missing_def)
  from assms(1) have len: "i < length ?irr" by simp
  from assms(1,3) have r: "no_missing (rows ! i)" by simp
  have l1: "shift 1 ?irr ! i \<noteq> None" using len assms(2) irr by (intro shift_complete) simp_all
  have l24: "shift 24 ?irr ! i \<noteq> None" using len assms(2) irr by (intro shift_complete) simp_all
  have l168: "shift 168 ?irr ! i \<noteq> None" using len assms(2) irr by (intro shift_complete) simp_all
  have rm: "rolling 24 mean ?irr ! i \<noteq> None"
    using len assms(2) irr by (intro rolling_complete) simp_all
  have rs: "rolling 24 std ?irr ! i \<noteq> None"
    using len assms(2) irr by (intro rolling_complete) simp_all
  from r l1 l24 l168 rm rs show ?thesis
    by (simp add: has_nan_def feature_row_def Let_def no_missing_def fmul_complete)
qed

lemma dropna_engineer_complete:
  assumes "\<forall>r \<in> set rows. no_missing r"
  shows "dropna (engineer_features rows) = drop 168 (engineer_features rows)"
proof -
  have "filter (\<lambda>i. \<not> has_nan (feature_row rows i)) [0..<length rows] =
        filter (\<lambda>i. 168 \<le> i) [0..<length rows]"
  proof (rule filter_cong)
    fix i assume "i \<in> set [0..<length rows]"
    then have i: "i < length rows" by simp
    show "(\<not> has_nan (feature_row rows i)) = (168 \<le> i)"
      using lag168_early [OF i] complete_late [OF i _ assms] by (cases "168 \<le> i") auto
  qed simp
  then have "dropna (engineer_features rows) = map (feature_row rows) [168..<length rows]"
    by (simp add: dropna_def engineer_features_def filter_map o_def filter_upt_ge)
  then show ?thesis by (simp add: drop_engineer_features)
qed

lemma dropna_engineer_short:
  assumes "length rows \<le> 168"
  shows "dropna (engineer_features rows) = []"
proof -
  have "\<forall>r \<in> set (engineer_features rows). has_nan r"
    using assms by (auto simp: engineer_features_def intro: lag168_early)
  then show ?thesis by (simp add: dropna_def filter_empty_conv)
qed

lemma base_row_feature_row:
  "i < length rows \<Longrightarrow> base_row (feature_row rows i) = rows ! i"
  by (simp add: base_row_def feature_row_def Let_def)

lemma map_base_row_engineer:
  "map base_row (engineer_features rows) = rows"
  by (rule nth_equalityI) (simp_all add: engineer_features_def base_row_feature_row)

lemma parse_dates_no_missing:
  "parse_dates raw = Inr rows \<Longrightarrow> list_all no_missing raw \<Longrightarrow> \<forall>r \<in> set rows. no_missing r"
proof (induction raw arbitrary: rows)
  case Nil
  then show ?case by simp
next
  case (Cons r rs)
  from Cons.prems(1) obtain d t rows' where p: "parse_dates rs = Inr rows'"
    and rows: "rows = \<lparr>Temperature = Temperature r, humidity = humidity r,
                   wind_speed = wind_speed r, irradiance = irradiance r, index = t\<rparr> # rows'"
    by (rule parse_dates_Cons)
  from Cons.prems(2) have a: "no_missing r" and b: "list_all no_missing rs" by simp_all
  from Cons.IH [OF p b] have ih: "\<forall>x \<in> set rows'. no_missing x" .
  from a have "no_missing \<lparr>Temperature = Temperature r, humidity = humidity r,
                   wind_speed = wind_speed r, irradiance = irradiance r, index = t\<rparr>"
    by (simp add: no_missing_def)
  with ih rows show ?case by simp
qed

lemma load_complete:
  assumes "parse_dates raw = Inr rows" and "list_all no_missing raw"
  shows "load_and_preprocess_data raw =
         Inr (drop 168 (engineer_features (filter_date_range rows)))"
proof -
  from assms have "\<forall>r \<in> set rows. no_missing r" by (rule parse_dates_no_missing)
  then have "\<forall>r \<in> set (filter_date_range rows). no_missing r"
    using filter_date_range_subset by blast
  then have "dropna (engineer_features (filter_date_range rows)) =
             drop 168 (engineer_features (filter_date_range rows))"
    by (rule dropna_engineer_complete)
  with assms(1) show ?thesis by (simp add: load_and_preprocess_data_def)
qed

lemma load_no_nan:
  assumes "load_and_preprocess_data raw = Inr out" and "r \<in> set out"
  shows "\<not> has_nan r"
  using assms by (rule load_output_rows)

section \<open>The example tables\<close>

lemma to_datetime_20150601:
  "to_datetime 20150601 = Inr \<lparr>ts_year = 2015, ts_month = 6, ts_day = 1, ts_hour = 0\<rparr>"
  by (simp add: to_datetime_def days_in_month_def)

lemma to_datetime_20150602:
  "to_datetime 20150602 = Inr \<lparr>ts_year = 2015, ts_month = 6, ts_day = 2, ts_hour = 0\<rparr>"
  by (simp add: to_datetime_def days_in_month_def)

lemma to_datetime_20141231:
  "to_datetime 20141231 = Inr \<lparr>ts_year = 2014, ts_month = 12, ts_day = 31, ts_hour = 0\<rparr>"
  by (simp add: to_datetime_def days_in_month_def)

lemma to_datetime_20150101:
  "to_datetime 20150101 = Inr \<lparr>ts_year = 2015, ts_month = 1, ts_day = 1, ts_hour = 0\<rparr>"
  by (simp add: to_datetime_def days_in_month_def)

lemma to_datetime_20150102:
  "to_datetime 20150102 = Inr \<lparr>ts_year = 2015, ts_month = 1, ts_day = 2, ts_hour = 0\<rparr>"
  by (simp add: to_datetime_def days_in_month_def)

lemma in_date_range_iff:
  "in_date_range \<lparr>ts_year = y, ts_month = m, ts_day = d, ts_hour = h\<rparr> \<longleftrightarrow>
   (2015, 1, 1, 0) \<le> (y, m, d, h) \<and> (y, m, d, h) \<le> (2016, 12, 31, 0)"
  by (simp add: in_date_range_def ts_key_def range_start_def range_end_def)

lemma parse_dates_replicate:
  assumes "date r = Some d" and "to_datetime d = Inr t"
  shows "parse_dates (replicate n r) =
         Inr (replicate n \<lparr>Temperature = Temperature r, humidity = humidity r,
                            wind_speed = wind_speed r, irradiance = irradiance r, index = t\<rparr>)"
  using assms by (induction n) simp_all

lemma parse_week: "parse_dates week_raw = Inr week_indexed"
  unfolding week_raw_def week_indexed_def
  using parse_dates_replicate [of base_raw 20150601 _ 168]
  by (simp add: base_raw_def base_indexed_def to_datetime_20150601)

lemma parse_week_tail:
  "parse_dates rest = Inr rows \<Longrightarrow> parse_dates (week_raw @ rest) = Inr (week_indexed @ rows)"
  by (simp add: parse_dates_append parse_week)

lemma in_range_base: "in_date_range (index base_indexed)"
  by (simp add: base_indexed_def in_date_range_iff less_eq_prod_def)

lemma filter_week: "filter_date_range (week_indexed @ rows) = week_indexed @ filter_date_range rows"
  by (simp add: filter_date_range_def week_indexed_def in_range_base)

lemma no_missing_week: "list_all no_missing week_raw"
  by (simp add: week_raw_def list_all_iff no_missing_def base_raw_def)

lemma length_week: "length week_indexed = 168"
  by (simp add: week_indexed_def)

lemma load_week_tail:
  assumes "parse_dates rest = Inr rows" and "list_all no_missing rest"
  shows "load_and_preprocess_data (week_raw @ rest) =
         Inr (map (feature_row (week_indexed @ filter_date_range rows))
                  [168..<168 + length (filter_date_range rows)])"
proof -
  from assms(1) have p: "parse_dates (week_raw @ rest) = Inr (week_indexed @ rows)"
    by (rule parse_week_tail)
  from assms(2) have n: "list_all no_missing (week_raw @ rest)"
    by (simp add: no_missing_week)
  show ?thesis
    unfolding load_complete [OF p n] filter_week drop_engineer_features
    by (simp add: length_week)
qed

lemma parse_base: "parse_dates [base_raw] = Inr [base_indexed]"
  by (simp add: base_raw_def base_indexed_def to_datetime_20150601)

lemma load_leak_table_a:
  "load_and_preprocess_data leak_table_a = Inr [feature_row (week_indexed @ [base_indexed]) 168]"
  unfolding leak_table_a_def
  using load_week_tail [OF parse_base]
  by (simp add: filter_date_range_def in_range_base no_missing_def base_raw_def)

section \<open>Properties of load\_and\_preprocess\_data\<close>

text \<open>
  C9. In every row of the engineered output the cyclical encodings lie on the unit
  circle: \<open>hour_sin\<^sup>2 + hour_cos\<^sup>2 = 1\<close> and \<open>month_sin\<^sup>2 + month_cos\<^sup>2 = 1\<close>,
  exactly, over the reals.
\<close>

theorem cyclical_encoding_identity:
  assumes "load_and_preprocess_data raw = Inr out"
  shows "\<forall>r \<in> set out. (hour_sin r)\<^sup>2 + (hour_cos r)\<^sup>2 = 1 \<and> (month_sin r)\<^sup>2 + (month_cos r)\<^sup>2 = 1"
proof
  fix r assume "r \<in> set out"
  with assms obtain rows i where "r = feature_row (filter_date_range rows) i"
    by (rule load_output_rows)
  then show "(hour_sin r)\<^sup>2 + (hour_cos r)\<^sup>2 = 1 \<and> (month_sin r)\<^sup>2 + (month_cos r)\<^sup>2 = 1"
    by (simp add: feature_row_def Let_def)
qed

theorem cyclical_encoding_identity_witness:
  "load_and_preprocess_data leak_table_a = Inr [feature_row (week_indexed @ [base_indexed]) 168] \<and>
   (hour_sin (feature_row (week_indexed @ [base_indexed]) 168))\<^sup>2 +
   (hour_cos (feature_row (week_indexed @ [base_indexed]) 168))\<^sup>2 = 1 \<and>
   (month_sin (feature_row (week_indexed @ [base_indexed]) 168))\<^sup>2 +
   (month_cos (feature_row (week_indexed @ [base_indexed]) 168))\<^sup>2 = 1"
  using cyclical_encoding_identity [OF load_leak_table_a] load_leak_table_a by simp

text \<open>
  C10. The timestamps are parsed from dates without a time of day, so every index
  entry is at midnight: in every output row the hour is 0, \<open>hour_sin\<close> is 0 and
  \<open>hour_cos\<close> is 1.
\<close>

theorem hour_features_constant:
  assumes "load_and_preprocess_data raw = Inr out"
  shows "\<forall>r \<in> set out. ts_hour (index r) = 0 \<and> hour r = 0 \<and> hour_sin r = 0 \<and> hour_cos r = 1"
proof
  fix r assume "r \<in> set out"
  with assms obtain rows i where p: "parse_dates raw = Inr rows"
    and i: "i < length (filter_date_range rows)"
    and r: "r = feature_row (filter_date_range rows) i"
    by (rule load_output_rows)
  from i have "filter_date_range rows ! i \<in> set rows"
    using filter_date_range_subset nth_mem by blast
  with p have "ts_hour (index (filter_date_range rows ! i)) = 0"
    using parse_dates_hour by blast
  with r show "ts_hour (index r) = 0 \<and> hour r = 0 \<and> hour_sin r = 0 \<and> hour_cos r = 1"
    by (simp add: feature_row_def Let_def)
qed

theorem hour_features_constant_witness:
  "load_and_preprocess_data leak_table_a = Inr [feature_row (week_indexed @ [base_indexed]) 168] \<and>
   hour (feature_row (week_indexed @ [base_indexed]) 168) = 0 \<and>
   hour_sin (feature_row (week_indexed @ [base_indexed]) 168) = 0 \<and>
   hour_cos (feature_row (week_indexed @ [base_indexed]) 168) = 1"
  using hour_features_constant [OF load_leak_table_a] load_leak_table_a by simp

text \<open>
  C4, as the code has it. For a table without missing values whose dates all parse, the
  output is the date-filtered table (the rows dated 2015-01-01 to 2016-12-31) from
  position 168 onward, each row with its engineered columns, and no output row has a
  missing value in a lag or rolling column. Rows outside the date window are removed
  before the lags are taken, so they do not count among the 168.
\<close>

theorem window_drop_invariant:
  assumes "parse_dates raw = Inr rows" and "list_all no_missing raw"
  shows "\<exists>out. load_and_preprocess_data raw = Inr out \<and>
           map base_row out = drop 168 (filter_date_range rows) \<and>
           (\<forall>r \<in> set out.
              irradiance_lag1 r \<noteq> None \<and> irradiance_lag24 r \<noteq> None \<and>
              irradiance_lag168 r \<noteq> None \<and> irradiance_rolling_mean_24h r \<noteq> None \<and>
              irradiance_rolling_std_24h r \<noteq> None)"
proof -
  let ?out = "drop 168 (engineer_features (filter_date_range rows))"
  have l: "load_and_preprocess_data raw = Inr ?out"
    using assms by (rule load_complete)
  have "map base_row ?out = drop 168 (map base_row (engineer_features (filter_date_range rows)))"
    by (simp add: drop_map)
  then have b: "map base_row ?out = drop 168 (filter_date_range rows)"
    by (simp only: map_base_row_engineer)
  have "\<forall>r \<in> set ?out. \<not> has_nan r"
    using load_no_nan [OF l] by blast
  then have n: "\<forall>r \<in> set ?out.
              irradiance_lag1 r \<noteq> None \<and> irradiance_lag24 r \<noteq> None \<and>
              irradiance_lag168 r \<noteq> None \<and> irradiance_rolling_mean_24h r \<noteq> None \<and>
              irradiance_rolling_std_24h r \<noteq> None"
    by (simp add: has_nan_def)
  from l b n show ?thesis by blast
qed

lemma parse_leak_table_a: "parse_dates leak_table_a = Inr (week_indexed @ [base_indexed])"
  unfolding leak_table_a_def using parse_base by (rule parse_week_tail)

lemma no_missing_leak_table_a: "list_all no_missing leak_table_a"
  by (simp add: leak_table_a_def no_missing_week no_missing_def base_raw_def)

theorem window_drop_invariant_witness:
  "parse_dates leak_table_a = Inr (week_indexed @ [base_indexed]) \<and>
   list_all no_missing leak_table_a \<and>
   load_and_preprocess_data leak_table_a = Inr [feature_row (week_indexed @ [base_indexed]) 168] \<and>
   map base_row [feature_row (week_indexed @ [base_indexed]) 168] = [base_indexed] \<and>
   irradiance_lag168 (feature_row (week_indexed @ [base_indexed]) 168) \<noteq> None \<and>
   irradiance_rolling_std_24h (feature_row (week_indexed @ [base_indexed]) 168) \<noteq> None"
proof -
  have "filter_date_range [base_indexed] = [base_indexed]"
    by (simp add: filter_date_range_def in_range_base)
  then have d: "drop 168 (filter_date_range (week_indexed @ [base_indexed])) = [base_indexed]"
    by (simp add: filter_week length_week)
  from window_drop_invariant [OF parse_leak_table_a no_missing_leak_table_a]
  show ?thesis
    using parse_leak_table_a no_missing_leak_table_a load_leak_table_a d by auto
qed

lemma parse_early_table:
  "parse_dates early_table =
   Inr (base_indexed\<lparr>index := \<lparr>ts_year = 2014, ts_month = 12, ts_day = 31, ts_hour = 0\<rparr>\<rparr> # week_indexed)"
  by (simp add: early_table_def parse_week base_raw_def base_indexed_def to_datetime_20141231)

lemma no_missing_early_table: "list_all no_missing early_table"
  by (simp add: early_table_def no_missing_week no_missing_def base_raw_def)

text \<open>
  C4, as the specification states it, fails: a table of 169 rows without missing values
  whose first row is dated outside the window has an empty output, not its row 168.
\<close>

theorem window_drop_invariant_counterexample:
  "length early_table = 169 \<and>
   list_all no_missing early_table \<and>
   parse_dates early_table =
     Inr (base_indexed\<lparr>index := \<lparr>ts_year = 2014, ts_month = 12, ts_day = 31, ts_hour = 0\<rparr>\<rparr> # week_indexed) \<and>
   drop 168 (base_indexed\<lparr>index := \<lparr>ts_year = 2014, ts_month = 12, ts_day = 31, ts_hour = 0\<rparr>\<rparr> # week_indexed)
     = [base_indexed] \<and>
   load_and_preprocess_data early_table = Inr []"
proof -
  have f: "filter_date_range
             (base_indexed\<lparr>index := \<lparr>ts_year = 2014, ts_month = 12, ts_day = 31, ts_hour = 0\<rparr>\<rparr> # week_indexed)
           = week_indexed"
    using filter_week [of "[]"]
    by (simp add: filter_date_range_def in_date_range_iff less_eq_prod_def)
  have "load_and_preprocess_data early_table = Inr []"
    unfolding load_complete [OF parse_early_table no_missing_early_table] f drop_engineer_features
    by (simp add: length_week)
  moreover have "drop 168 (base_indexed\<lparr>index := \<lparr>ts_year = 2014, ts_month = 12, ts_day = 31, ts_hour = 0\<rparr>\<rparr> # week_indexed)
     = [base_indexed]"
    by (simp add: week_indexed_def drop_Cons' )
  moreover have "length early_table = 169"
    by (simp add: early_table_def week_raw_def)
  ultimately show ?thesis
    using no_missing_early_table parse_early_table by simp
qed

lemma parse_dates_ok:
  "\<forall>r \<in> set raw. \<exists>d. date r = Some d \<and> \<not> isl (to_datetime d) \<Longrightarrow> \<not> isl (parse_dates raw)"
proof (induction raw)
  case Nil
  show ?case by simp
next
  case (Cons r rs)
  then obtain d where d: "date r = Some d" and t: "\<not> isl (to_datetime d)" by auto
  from t obtain ts where ts: "to_datetime d = Inr ts" by (cases "to_datetime d") simp_all
  from Cons have "\<not> isl (parse_dates rs)" by simp
  then obtain rows where "parse_dates rs = Inr rows" by (cases "parse_dates rs") simp_all
  with d ts show ?case by simp
qed

lemma load_short:
  assumes "length raw \<le> 168" and "\<not> isl (parse_dates raw)"
  shows "load_and_preprocess_data raw = Inr []"
proof -
  from assms(2) obtain rows where p: "parse_dates raw = Inr rows"
    by (cases "parse_dates raw") simp_all
  then have "length rows = length raw" by (rule parse_dates_length)
  moreover have "length (filter_date_range rows) \<le> length rows"
    by (simp add: filter_date_range_def)
  ultimately have "length (filter_date_range rows) \<le> 168" using assms(1) by simp
  then have "dropna (engineer_features (filter_date_range rows)) = []"
    by (rule dropna_engineer_short)
  with p show ?thesis by (simp add: load_and_preprocess_data_def)
qed

lemma length_scenario48: "length scenario48 = 48"
  by (simp add: scenario48_def)

lemma parse_scenario48: "\<not> isl (parse_dates scenario48)"
proof (rule parse_dates_ok)
  show "\<forall>r \<in> set scenario48. \<exists>d. date r = Some d \<and> \<not> isl (to_datetime d)"
    by (auto simp: scenario48_def to_datetime_20150101 to_datetime_20150102)
qed

text \<open>
  C5, as the code has it. A table of 48 rows whose dates parse loses all 48 rows: the
  lag of 168 steps is missing in every row, so the output is empty.
\<close>

theorem scenario_48_rows_all_dropped:
  assumes "length raw = 48" and "\<not> isl (parse_dates raw)"
  shows "load_and_preprocess_data raw = Inr [] \<and> rows_dropped raw = Some 48"
proof -
  from assms have "load_and_preprocess_data raw = Inr []"
    by (intro load_short) simp_all
  with assms(1) show ?thesis by (simp add: rows_dropped_def)
qed

theorem scenario_48_rows_all_dropped_witness:
  "length scenario48 = 48 \<and> \<not> isl (parse_dates scenario48) \<and>
   load_and_preprocess_data scenario48 = Inr [] \<and> rows_dropped scenario48 = Some 48"
  using scenario_48_rows_all_dropped [OF length_scenario48 parse_scenario48]
    length_scenario48 parse_scenario48 by simp

text \<open>
  C5, as the specification states it, fails: on the 48-row scenario the load removes 48
  rows, not 167.
\<close>

theorem scenario_48_rows_counterexample:
  "length scenario48 = 48 \<and>
   load_and_preprocess_data scenario48 = Inr [] \<and>
   rows_dropped scenario48 = Some 48 \<and>
   rows_dropped scenario48 \<noteq> Some 167"
proof -
  have "load_and_preprocess_data scenario48 = Inr []"
    using parse_scenario48 by (intro load_short) (simp_all add: length_scenario48)
  then show ?thesis by (simp add: rows_dropped_def length_scenario48)
qed

lemma dropna_append: "dropna (xs @ ys) = dropna xs @ dropna ys"
  by (simp add: dropna_def)

lemma filter_date_range_append:
  "filter_date_range (xs @ ys) = filter_date_range xs @ filter_date_range ys"
  by (simp add: filter_date_range_def)

lemma parse_dates_take:
  assumes "parse_dates xs = Inr rx"
  shows "parse_dates (take n xs) = Inr (take n rx)"
proof -
  from assms have "parse_dates (take n xs @ drop n xs) = Inr rx" by simp
  from this [unfolded parse_dates_append]
  obtain a b where a: "parse_dates (take n xs) = Inr a" and rx: "rx = a @ b"
    by (auto split: sum.splits)
  from a have "length a = length (take n xs)" by (rule parse_dates_length)
  moreover from assms have "length rx = length xs" by (rule parse_dates_length)
  ultimately have "take n rx = a" using rx by (simp add: min_def split: if_splits)
  with a show ?thesis by simp
qed

lemma take_engineer_features:
  "take k (engineer_features rows) = engineer_features (take k rows)"
proof -
  have "engineer_features (take k rows @ drop k rows) =
        engineer_features (take k rows) @
        map (feature_row (take k rows @ drop k rows))
            [length (take k rows)..<length (take k rows) + length (drop k rows)]"
    by (rule engineer_features_append)
  then have "take k (engineer_features rows) =
             take k (engineer_features (take k rows) @
               map (feature_row rows)
                 [length (take k rows)..<length (take k rows) + length (drop k rows)])"
    by simp
  also have "\<dots> = engineer_features (take k rows)"
    by (simp add: engineer_features_length min_def)
  finally show ?thesis .
qed

lemma take_filter_date_range:
  "take (length (filter_date_range (take n rows))) (filter_date_range rows) =
   filter_date_range (take n rows)"
proof -
  have "filter_date_range rows = filter_date_range (take n rows) @ filter_date_range (drop n rows)"
    using filter_date_range_append [of "take n rows" "drop n rows"] by simp
  then show ?thesis by (metis append_eq_conv_conj)
qed

text \<open>
  C1, as the code has it. No engineered row depends on an input row that comes after
  it. Take two tables whose dates parse and that agree on their first \<open>n\<close> rows, and
  let \<open>k\<close> be the number of those rows inside the date window. Then the first \<open>k\<close>
  rows of the two date-filtered tables agree, and so do the first \<open>k\<close> rows of the two
  engineered tables (every column, before rows with missing values are removed). The
  surviving ones among them are exactly the output of the first \<open>n\<close> rows alone, and the
  output of either table is these rows followed by the surviving rows of its later
  input rows. A row's features do depend on the row's own date and covariates.
\<close>

theorem load_prefix_noninterference:
  assumes "take n xs = take n ys"
    and "parse_dates xs = Inr rx"
    and "parse_dates ys = Inr ry"
  shows "let fx = filter_date_range rx;
             fy = filter_date_range ry;
             k = length (filter_date_range (take n rx))
         in take k fx = take k fy \<and>
            take k (engineer_features fx) = take k (engineer_features fy) \<and>
            load_and_preprocess_data (take n xs) =
              Inr (dropna (take k (engineer_features fx))) \<and>
            load_and_preprocess_data xs =
              Inr (dropna (take k (engineer_features fx)) @
                   dropna (drop k (engineer_features fx))) \<and>
            load_and_preprocess_data ys =
              Inr (dropna (take k (engineer_features fx)) @
                   dropna (drop k (engineer_features fy)))"
proof -
  let ?fx = "filter_date_range rx" and ?fy = "filter_date_range ry"
  let ?k = "length (filter_date_range (take n rx))"
  have px: "parse_dates (take n xs) = Inr (take n rx)"
    using assms(2) by (rule parse_dates_take)
  have py: "parse_dates (take n ys) = Inr (take n ry)"
    using assms(3) by (rule parse_dates_take)
  from px py assms(1) have r: "take n ry = take n rx" by simp
  have tx: "take ?k ?fx = filter_date_range (take n rx)"
    by (rule take_filter_date_range)
  have "take (length (filter_date_range (take n ry))) ?fy = filter_date_range (take n ry)"
    by (rule take_filter_date_range)
  then have ty: "take ?k ?fy = filter_date_range (take n rx)"
    by (simp only: r)
  from tx ty have f: "take ?k ?fx = take ?k ?fy" by simp
  have e: "take ?k (engineer_features ?fx) = take ?k (engineer_features ?fy)"
    by (simp only: take_engineer_features f)
  have l: "load_and_preprocess_data (take n xs) = Inr (dropna (take ?k (engineer_features ?fx)))"
    by (simp only: load_and_preprocess_data_def px sum.case take_engineer_features tx)
  have "dropna (engineer_features ?fx) =
        dropna (take ?k (engineer_features ?fx) @ drop ?k (engineer_features ?fx))"
    by simp
  then have ox: "load_and_preprocess_data xs =
              Inr (dropna (take ?k (engineer_features ?fx)) @
                   dropna (drop ?k (engineer_features ?fx)))"
    by (simp only: load_and_preprocess_data_def assms(2) sum.case dropna_append)
  have "dropna (engineer_features ?fy) =
        dropna (take ?k (engineer_features ?fy) @ drop ?k (engineer_features ?fy))"
    by simp
  then have "load_and_preprocess_data ys =
              Inr (dropna (take ?k (engineer_features ?fy)) @
                   dropna (drop ?k (engineer_features ?fy)))"
    by (simp only: load_and_preprocess_data_def assms(3) sum.case dropna_append)
  then have oy: "load_and_preprocess_data ys =
              Inr (dropna (take ?k (engineer_features ?fx)) @
                   dropna (drop ?k (engineer_features ?fy)))"
    by (simp only: e)
  from f e l ox oy show ?thesis by (simp only: Let_def)
qed

lemma take_later_table_a: "take 169 later_table_a = leak_table_a"
  by (simp add: later_table_a_def leak_table_a_def week_raw_def)

lemma take_later_table_b: "take 169 later_table_b = leak_table_a"
  by (simp add: later_table_b_def leak_table_a_def week_raw_def)

lemma parse_later_table_a: "parse_dates later_table_a = Inr later_indexed_a"
proof -
  have "parse_dates [base_raw, base_raw\<lparr>irradiance := Some 600\<rparr>] =
        Inr [base_indexed, base_indexed\<lparr>irradiance := Some 600\<rparr>]"
    by (simp add: base_raw_def base_indexed_def to_datetime_20150601)
  then show ?thesis
    unfolding later_table_a_def later_indexed_a_def by (rule parse_week_tail)
qed

lemma parse_later_table_b: "parse_dates later_table_b = Inr later_indexed_b"
proof -
  have "parse_dates [base_raw, base_raw\<lparr>humidity := Some 10, date := Some 20150602\<rparr>] =
        Inr [base_indexed,
             base_indexed\<lparr>humidity := Some 10,
                          index := \<lparr>ts_year = 2015, ts_month = 6, ts_day = 2, ts_hour = 0\<rparr>\<rparr>]"
    by (simp add: base_raw_def base_indexed_def to_datetime_20150601 to_datetime_20150602)
  then show ?thesis
    unfolding later_table_b_def later_indexed_b_def by (rule parse_week_tail)
qed

lemma filter_later_indexed_a: "filter_date_range later_indexed_a = later_indexed_a"
proof -
  have "filter_date_range [base_indexed, base_indexed\<lparr>irradiance := Some 600\<rparr>] =
        [base_indexed, base_indexed\<lparr>irradiance := Some 600\<rparr>]"
    using in_range_base by (simp add: filter_date_range_def)
  then show ?thesis by (simp add: later_indexed_a_def filter_week)
qed

lemma filter_later_indexed_b: "filter_date_range later_indexed_b = later_indexed_b"
proof -
  have "filter_date_range
          [base_indexed,
           base_indexed\<lparr>humidity := Some 10,
                        index := \<lparr>ts_year = 2015, ts_month = 6, ts_day = 2, ts_hour = 0\<rparr>\<rparr>] =
        [base_indexed,
         base_indexed\<lparr>humidity := Some 10,
                      index := \<lparr>ts_year = 2015, ts_month = 6, ts_day = 2, ts_hour = 0\<rparr>\<rparr>]"
    using in_range_base by (simp add: filter_date_range_def in_date_range_iff less_eq_prod_def)
  then show ?thesis by (simp add: later_indexed_b_def filter_week)
qed

lemma filter_take_later_indexed_a:
  "length (filter_date_range (take 169 later_indexed_a)) = 169"
proof -
  have "take 169 later_indexed_a = week_indexed @ [base_indexed]"
    by (simp add: later_indexed_a_def length_week)
  moreover have "filter_date_range [base_indexed] = [base_indexed]"
    by (simp add: filter_date_range_def in_range_base)
  ultimately show ?thesis by (simp add: filter_week length_week)
qed

theorem load_prefix_noninterference_witness:
  "take 169 later_table_a = take 169 later_table_b \<and>
   parse_dates later_table_a = Inr later_indexed_a \<and>
   parse_dates later_table_b = Inr later_indexed_b \<and>
   take 169 (engineer_features later_indexed_a) = take 169 (engineer_features later_indexed_b) \<and>
   dropna (take 169 (engineer_features later_indexed_a)) =
     [feature_row (week_indexed @ [base_indexed]) 168] \<and>
   load_and_preprocess_data later_table_a =
     Inr ([feature_row (week_indexed @ [base_indexed]) 168] @
          dropna (drop 169 (engineer_features later_indexed_a))) \<and>
   load_and_preprocess_data later_table_b =
     Inr ([feature_row (week_indexed @ [base_indexed]) 168] @
          dropna (drop 169 (engineer_features later_indexed_b)))"
proof -
  have t: "take 169 later_table_a = take 169 later_table_b"
    by (simp only: take_later_table_a take_later_table_b)
  note th = load_prefix_noninterference [OF t parse_later_table_a parse_later_table_b,
      unfolded Let_def filter_later_indexed_a filter_later_indexed_b filter_take_later_indexed_a]
  from th have e: "take 169 (engineer_features later_indexed_a) =
                   take 169 (engineer_features later_indexed_b)"
    by blast
  from th have "load_and_preprocess_data (take 169 later_table_a) =
                Inr (dropna (take 169 (engineer_features later_indexed_a)))"
    by blast
  then have d: "dropna (take 169 (engineer_features later_indexed_a)) =
                [feature_row (week_indexed @ [base_indexed]) 168]"
    by (simp add: take_later_table_a load_leak_table_a)
  from th have "load_and_preprocess_data later_table_a =
     Inr (dropna (take 169 (engineer_features later_indexed_a)) @
          dropna (drop 169 (engineer_features later_indexed_a)))"
    by blast
  then have a: "load_and_preprocess_data later_table_a =
     Inr ([feature_row (week_indexed @ [base_indexed]) 168] @
          dropna (drop 169 (engineer_features later_indexed_a)))"
    by (simp only: d)
  from th have "load_and_preprocess_data later_table_b =
     Inr (dropna (take 169 (engineer_features later_indexed_a)) @
          dropna (drop 169 (engineer_features later_indexed_b)))"
    by blast
  then have b: "load_and_preprocess_data later_table_b =
     Inr ([feature_row (week_indexed @ [base_indexed]) 168] @
          dropna (drop 169 (engineer_features later_indexed_b)))"
    by (simp only: d)
  from t parse_later_table_a parse_later_table_b e d a b show ?thesis by blast
qed

lemma parse_warm: "parse_dates [warm_raw] = Inr [base_indexed\<lparr>Temperature := Some 30\<rparr>]"
  by (simp add: warm_raw_def base_raw_def base_indexed_def to_datetime_20150601)

lemma load_leak_table_b:
  "load_and_preprocess_data leak_table_b =
   Inr [feature_row (week_indexed @ [base_indexed\<lparr>Temperature := Some 30\<rparr>]) 168]"
proof -
  have f: "filter_date_range [base_indexed\<lparr>Temperature := Some 30\<rparr>] =
           [base_indexed\<lparr>Temperature := Some 30\<rparr>]"
    using in_range_base by (simp add: filter_date_range_def)
  have n: "list_all no_missing [warm_raw]"
    by (simp add: no_missing_def warm_raw_def base_raw_def)
  show ?thesis
    unfolding leak_table_b_def load_week_tail [OF parse_warm n] f by simp
qed

lemma temp_humidity_feature_row:
  "temp_humidity (feature_row rows i) = fmul (Temperature (rows ! i)) (humidity (rows ! i))"
  by (simp add: feature_row_def Let_def)

text \<open>
  C1, as the specification states it, fails: the two tables differ only in the
  temperature of row 168, a value that is not the target and lies at time 168, and the
  feature \<open>temp_humidity\<close> of output row 168 differs.
\<close>

theorem load_leakage_counterexample:
  "leak_table_b = leak_table_a[168 := (leak_table_a ! 168)\<lparr>Temperature := Some 30\<rparr>] \<and>
   map_sum id (map temp_humidity) (load_and_preprocess_data leak_table_a) = Inr [Some 1000] \<and>
   map_sum id (map temp_humidity) (load_and_preprocess_data leak_table_b) = Inr [Some 1200]"
proof -
  have w: "length week_raw = 168" by (simp add: week_raw_def)
  have "leak_table_b = leak_table_a[168 := (leak_table_a ! 168)\<lparr>Temperature := Some 30\<rparr>]"
    by (simp add: leak_table_a_def leak_table_b_def warm_raw_def list_update_append nth_append w)
  moreover have "map_sum id (map temp_humidity) (load_and_preprocess_data leak_table_a) = Inr [Some 1000]"
    by (simp add: load_leak_table_a temp_humidity_feature_row nth_append length_week base_indexed_def)
  moreover have "map_sum id (map temp_humidity) (load_and_preprocess_data leak_table_b) = Inr [Some 1200]"
    by (simp add: load_leak_table_b temp_humidity_feature_row nth_append length_week base_indexed_def)
  ultimately show ?thesis by simp
qed

section \<open>Properties of cross\_validation\_sarimax\<close>

lemma range_step_nth:
  "j < (stop - start + step - 1) div step \<Longrightarrow> range_step start stop step ! j = start + j * step"
  by (simp add: range_step_def)

lemma range_step_length:
  "length (range_step start stop step) = (stop - start + step - 1) div step"
  by (simp add: range_step_def)

lemma split_count:
  assumes "0 < (s::nat)" and "k * s \<le> n"
  shows "(n - (n - k * s) + s - 1) div s = k"
proof -
  from assms(1) obtain r where r: "s = Suc r" by (cases s) simp_all
  from assms(2) have "n - (n - k * s) = k * s" by (rule diff_diff_cancel)
  then have "(n - (n - k * s) + s - 1) div s = (k * Suc r + r) div Suc r"
    by (simp add: r)
  also have "\<dots> = k + r div Suc r"
    by (rule div_mult_self3) simp
  also have "\<dots> = k" by simp
  finally show ?thesis .
qed

lemma time_series_split_Inr:
  assumes "time_series_split n_splits n = Inr splits"
  obtains s where "0 < s" and "n_splits * s < n" and "1 < n_splits"
    and "splits = map (\<lambda>k. ([0..<n - n_splits * s + k * s],
                              [n - n_splits * s + k * s..<n - n_splits * s + k * s + s]))
                      [0..<n_splits]"
proof -
  let ?s = "n div (n_splits + 1)"
  from assms have a: "1 < n_splits" and b: "n_splits + 1 \<le> n" and c: "?s * n_splits < n"
    and d: "splits = map (\<lambda>test_start. ([0..<test_start], [test_start..<test_start + ?s]))
                        (range_step (n - n_splits * ?s) n ?s)"
    by (auto simp: time_series_split_def Let_def split: if_splits)
  from b have s: "0 < ?s" by (simp add: div_greater_zero_iff)
  from c have le: "n_splits * ?s \<le> n" by (simp add: mult.commute)
  have cnt: "(n - (n - n_splits * ?s) + ?s - 1) div ?s = n_splits"
    using s le by (rule split_count)
  have "range_step (n - n_splits * ?s) n ?s = map (\<lambda>k. n - n_splits * ?s + k * ?s) [0..<n_splits]"
    unfolding range_step_def cnt ..
  with d have "splits = map (\<lambda>k. ([0..<n - n_splits * ?s + k * ?s],
                              [n - n_splits * ?s + k * ?s..<n - n_splits * ?s + k * ?s + ?s]))
                      [0..<n_splits]"
    by (simp add: o_def)
  moreover from c have "n_splits * ?s < n" by (simp add: mult.commute)
  ultimately show thesis using s a that by blast
qed

lemma splits_ordered:
  assumes "time_series_split n_splits n = Inr splits"
    and "(train_idx, val_idx) \<in> set splits" and "i \<in> set train_idx" and "j \<in> set val_idx"
  shows "i < j \<and> j < n"
proof -
  from assms(1) obtain s where s: "0 < s" and lt: "n_splits * s < n"
    and sp: "splits = map (\<lambda>k. ([0..<n - n_splits * s + k * s],
                              [n - n_splits * s + k * s..<n - n_splits * s + k * s + s]))
                      [0..<n_splits]"
    by (rule time_series_split_Inr)
  from assms(2) sp obtain k where k: "k < n_splits"
    and tr: "train_idx = [0..<n - n_splits * s + k * s]"
    and va: "val_idx = [n - n_splits * s + k * s..<n - n_splits * s + k * s + s]"
    by auto
  from k have "Suc k \<le> n_splits" by simp
  then have "Suc k * s \<le> n_splits * s" by (rule mult_le_mono1)
  then have "k * s + s \<le> n_splits * s" by simp
  with lt have "n - n_splits * s + k * s + s \<le> n" by simp
  with assms(3,4) tr va show ?thesis by simp
qed

lemma splits_expanding:
  assumes "time_series_split n_splits n = Inr splits" and "Suc k < length splits"
  shows "set (fst (splits ! k)) \<subseteq> set (fst (splits ! Suc k))"
proof -
  from assms(1) obtain s where
    sp: "splits = map (\<lambda>k. ([0..<n - n_splits * s + k * s],
                              [n - n_splits * s + k * s..<n - n_splits * s + k * s + s]))
                      [0..<n_splits]"
    by (rule time_series_split_Inr)
  from assms(2) sp have k: "Suc k < n_splits" by simp
  then have "k < n_splits" by simp
  with k sp show ?thesis by auto
qed

lemma splits_length:
  assumes "time_series_split n_splits n = Inr splits"
  shows "length splits = n_splits"
proof -
  from assms obtain s where
    "splits = map (\<lambda>k. ([0..<n - n_splits * s + k * s],
                              [n - n_splits * s + k * s..<n - n_splits * s + k * s + s]))
                      [0..<n_splits]"
    by (rule time_series_split_Inr)
  then show ?thesis by simp
qed

lemma df_index_iloc: "df_index (iloc data ps) = map (\<lambda>i. df_index data ! i) ps"
  by (simp add: iloc_def)

text \<open>
  C6, as the code has it. The folds are cut by row position: in every fold each training
  position is strictly below each validation position (and inside the table), and the
  training slice of a fold is contained in that of the next fold. The timestamps of a
  fold are strictly ordered when the timestamps of the table are strictly increasing;
  the code never compares timestamps.
\<close>

theorem cv_folds_ordered:
  assumes "cv_folds data n_splits = Inr folds"
  shows "\<exists>splits.
           time_series_split n_splits (length (df_index data)) = Inr splits \<and>
           folds = map (\<lambda>(train_idx, val_idx). (iloc data train_idx, iloc data val_idx)) splits \<and>
           (\<forall>(train_idx, val_idx) \<in> set splits.
              \<forall>i \<in> set train_idx. \<forall>j \<in> set val_idx. i < j \<and> j < length (df_index data)) \<and>
           (\<forall>k. Suc k < length splits \<longrightarrow> set (fst (splits ! k)) \<subseteq> set (fst (splits ! Suc k))) \<and>
           (sorted_wrt (<) (map ts_key (df_index data)) \<longrightarrow>
              (\<forall>(train_cv, val_cv) \<in> set folds.
                 \<forall>a \<in> set (df_index train_cv). \<forall>b \<in> set (df_index val_cv). ts_key a < ts_key b))"
proof -
  let ?n = "length (df_index data)"
  from assms obtain splits where sp: "time_series_split n_splits ?n = Inr splits"
    and folds: "folds = map (\<lambda>(train_idx, val_idx). (iloc data train_idx, iloc data val_idx)) splits"
    by (auto simp: cv_folds_def split: sum.splits)
  have pos: "\<forall>(train_idx, val_idx) \<in> set splits.
              \<forall>i \<in> set train_idx. \<forall>j \<in> set val_idx. i < j \<and> j < ?n"
    using splits_ordered [OF sp] by blast
  have grow: "\<forall>k. Suc k < length splits \<longrightarrow> set (fst (splits ! k)) \<subseteq> set (fst (splits ! Suc k))"
    using splits_expanding [OF sp] by blast
  have time: "sorted_wrt (<) (map ts_key (df_index data)) \<longrightarrow>
              (\<forall>(train_cv, val_cv) \<in> set folds.
                 \<forall>a \<in> set (df_index train_cv). \<forall>b \<in> set (df_index val_cv). ts_key a < ts_key b)"
  proof (intro impI ballI, clarify)
    fix train_cv val_cv a b
    assume sorted: "sorted_wrt (<) (map ts_key (df_index data))"
      and f: "(train_cv, val_cv) \<in> set folds"
      and a: "a \<in> set (df_index train_cv)" and b: "b \<in> set (df_index val_cv)"
    from f folds obtain train_idx val_idx where m: "(train_idx, val_idx) \<in> set splits"
      and tr: "train_cv = iloc data train_idx" and va: "val_cv = iloc data val_idx"
      by auto
    from a tr obtain i where i: "i \<in> set train_idx" and ai: "a = df_index data ! i"
      by (auto simp: df_index_iloc)
    from b va obtain j where j: "j \<in> set val_idx" and bj: "b = df_index data ! j"
      by (auto simp: df_index_iloc)
    from splits_ordered [OF sp m i j] have ij: "i < j" and jn: "j < ?n" by simp_all
    from sorted ij jn have "map ts_key (df_index data) ! i < map ts_key (df_index data) ! j"
      by (intro sorted_wrt_nth_less) simp_all
    with ij jn ai bj show "ts_key a < ts_key b" by simp
  qed
  from sp folds pos grow time show ?thesis by blast
qed

lemma split_5_12:
  "time_series_split 5 12 =
   Inr [([0..<2], [2..<4]), ([0..<4], [4..<6]), ([0..<6], [6..<8]), ([0..<8], [8..<10]),
        ([0..<10], [10..<12])]"
  by code_simp

lemma split_5_48:
  "time_series_split 5 48 =
   Inr [([0..<8], [8..<16]), ([0..<16], [16..<24]), ([0..<24], [24..<32]), ([0..<32], [32..<40]),
        ([0..<40], [40..<48])]"
  by code_simp

lemma cv_folds_daily12:
  "cv_folds daily12 5 =
   Inr (map (\<lambda>(train_idx, val_idx). (iloc daily12 train_idx, iloc daily12 val_idx))
          [([0..<2], [2..<4]), ([0..<4], [4..<6]), ([0..<6], [6..<8]), ([0..<8], [8..<10]),
           ([0..<10], [10..<12])])"
proof -
  have "length (df_index daily12) = 12" by (simp add: daily12_def)
  then show ?thesis by (simp only: cv_folds_def split_5_12 sum.case)
qed

lemma sorted_daily12: "sorted_wrt (<) (map ts_key (df_index daily12))"
proof -
  have "sorted_wrt (\<lambda>x y. (2015::int, 1::int, int x, 0::int) < (2015, 1, int y, 0)) [1..<13]"
    by (rule sorted_wrt_mono_rel [of _ "(<)"]) (simp_all add: less_prod_def)
  then show ?thesis
    by (simp add: daily12_def ts_key_def sorted_wrt_map o_def)
qed

theorem cv_folds_ordered_witness:
  "cv_folds daily12 5 =
     Inr (map (\<lambda>(train_idx, val_idx). (iloc daily12 train_idx, iloc daily12 val_idx))
          [([0..<2], [2..<4]), ([0..<4], [4..<6]), ([0..<6], [6..<8]), ([0..<8], [8..<10]),
           ([0..<10], [10..<12])]) \<and>
   sorted_wrt (<) (map ts_key (df_index daily12)) \<and>
   list_all (\<lambda>(train_cv, val_cv).
               list_all (\<lambda>a. list_all (\<lambda>b. ts_key a < ts_key b) (df_index val_cv))
                        (df_index train_cv))
     (map (\<lambda>(train_idx, val_idx). (iloc daily12 train_idx, iloc daily12 val_idx))
          [([0..<2], [2..<4]), ([0..<4], [4..<6]), ([0..<6], [6..<8]), ([0..<8], [8..<10]),
           ([0..<10], [10..<12])])"
proof -
  let ?F = "map (\<lambda>(train_idx, val_idx). (iloc daily12 train_idx, iloc daily12 val_idx))
          [([0..<2], [2..<4]), ([0..<4], [4..<6]), ([0..<6], [6..<8]), ([0..<8], [8..<10]),
           ([0..<10], [10..<12::nat])]"
  from cv_folds_ordered [OF cv_folds_daily12] sorted_daily12
  have "\<forall>(train_cv, val_cv) \<in> set ?F.
          \<forall>a \<in> set (df_index train_cv). \<forall>b \<in> set (df_index val_cv). ts_key a < ts_key b"
    by blast
  then have "list_all (\<lambda>(train_cv, val_cv).
               list_all (\<lambda>a. list_all (\<lambda>b. ts_key a < ts_key b) (df_index val_cv))
                        (df_index train_cv)) ?F"
    unfolding list_all_iff .
  with cv_folds_daily12 sorted_daily12 show ?thesis by blast
qed

lemma cv_folds_two_days:
  "cv_folds two_days 5 =
   Inr (map (\<lambda>(train_idx, val_idx). (iloc two_days train_idx, iloc two_days val_idx))
          [([0..<8], [8..<16]), ([0..<16], [16..<24]), ([0..<24], [24..<32]), ([0..<32], [32..<40]),
           ([0..<40], [40..<48])])"
proof -
  have "length (df_index two_days) = 48" by (simp add: two_days_def)
  then show ?thesis by (simp only: cv_folds_def split_5_48 sum.case)
qed

lemma two_days_first_day:
  assumes "n \<le> 24"
  shows "map (\<lambda>i. df_index two_days ! i) [m..<n] = replicate (n - m) day1"
proof -
  have "map (\<lambda>i. df_index two_days ! i) [m..<n] = map (\<lambda>i. day1) [m..<n]"
    using assms by (intro map_cong) (simp_all add: two_days_def nth_append)
  then show ?thesis by (simp add: map_replicate_const)
qed

text \<open>
  C6, as the specification states it, fails on the timestamps: in a table of 48 hourly
  rows of two days, the first fold trains on rows 0 to 7 and validates on rows 8 to 15,
  which all carry the midnight of the first day, so the last training timestamp is not
  strictly before the first validation timestamp.
\<close>

theorem cv_folds_timestamp_counterexample:
  "map_sum id (\<lambda>folds. (df_index (fst (hd folds)), df_index (snd (hd folds))))
     (cv_folds two_days 5) = Inr (replicate 8 day1, replicate 8 day1) \<and>
   \<not> ts_key (last (replicate 8 day1)) < ts_key (hd (replicate 8 day1))"
proof -
  have "df_index (iloc two_days [0..<8]) = replicate 8 day1"
    using two_days_first_day [of 8 0] by (simp add: df_index_iloc)
  moreover have "df_index (iloc two_days [8..<16]) = replicate 8 day1"
    using two_days_first_day [of 16 8] by (simp add: df_index_iloc)
  ultimately have "map_sum id (\<lambda>folds. (df_index (fst (hd folds)), df_index (snd (hd folds))))
     (cv_folds two_days 5) = Inr (replicate 8 day1, replicate 8 day1)"
    by (simp add: cv_folds_two_days)
  moreover have "last (replicate 8 day1) = day1" by simp
  moreover have "hd (replicate 8 day1) = day1" by (simp add: hd_replicate)
  ultimately show ?thesis by simp
qed

section \<open>Properties of feature\_selection\_analysis\<close>

lemma complete_pairs_self:
  "complete_pairs (map Some vs) (map Some vs) = map (\<lambda>v. (v, v)) vs"
  by (induction vs) simp_all

lemma pearson_self:
  assumes "sum_list (map (\<lambda>v. (v - mean vs)\<^sup>2) vs) \<noteq> 0"
  shows "pearson (map Some vs) (map Some vs) = Some 1"
proof -
  let ?s = "sum_list (map (\<lambda>v. (v - mean vs)\<^sup>2) vs)"
  from assms have ne: "vs \<noteq> []" by auto
  have nonneg: "0 \<le> ?s" by (rule sum_list_nonneg) auto
  have sq: "sqrt (?s * ?s) = ?s" using nonneg by simp
  have sxy: "sum_list (map (\<lambda>(x, y). (x - mean vs) * (y - mean vs)) (map (\<lambda>v. (v, v)) vs)) = ?s"
    by (simp add: o_def power2_eq_square)
  have sxx: "sum_list (map (\<lambda>(x, y). (x - mean vs)\<^sup>2) (map (\<lambda>v. (v, v)) vs)) = ?s"
    by (simp add: o_def)
  have syy: "sum_list (map (\<lambda>(x, y). (y - mean vs)\<^sup>2) (map (\<lambda>v. (v, v)) vs)) = ?s"
    by (simp add: o_def)
  have f: "map fst (map (\<lambda>v. (v, v)) vs) = vs" and g: "map snd (map (\<lambda>v. (v, v)) vs) = vs"
    by (simp_all add: o_def)
  show ?thesis
    unfolding pearson_def complete_pairs_self Let_def f g sxy sxx syy sq
    using assms ne by simp
qed

lemma target_variance:
  "sum_list (map (\<lambda>v. (v - mean [100, 300, 100, 300, 100, 300])\<^sup>2)
              [100, 300, 100, 300, 100, 300::real]) = 60000"
  by (simp add: mean_def)

lemma pearson_target:
  "pearson [Some 100, Some 300, Some 100, Some 300, Some 100, Some 300]
           [Some 100, Some 300, Some 100, Some 300, Some 100, Some 300] = Some 1"
  using pearson_self [of "[100, 300, 100, 300, 100, 300]"] target_variance by simp

lemma pearson_temperature:
  "pearson [Some 20, Some 20, Some 20, Some 20, Some 20, Some 20]
           [Some 100, Some 300, Some 100, Some 300, Some 100, Some 300] = None"
  by (simp add: pearson_def mean_def)

lemma get_columns_append:
  "get_columns df (xs @ ys) =
     (case get_columns df xs of
        Inl e \<Rightarrow> Inl e
      | Inr a \<Rightarrow> (case get_columns df ys of Inl e \<Rightarrow> Inl e | Inr b \<Rightarrow> Inr (a @ b)))"
  by (induction xs) (auto split: sum.splits)

text \<open>
  Whatever the library routines return: when the analysis returns and the target column
  is complete and not constant, the target is among the selected features.
\<close>

lemma target_always_selected:
  assumes run: "feature_selection_analysis lib train_data target_col =
                  Inr (selected, mi_df, target_corr, f_df)"
    and col: "get_column train_data target_col = Inr (map Some vs)"
    and var: "sum_list (map (\<lambda>v. (v - mean vs)\<^sup>2) vs) \<noteq> 0"
  shows "target_col \<in> set selected"
proof -
  let ?fc = "filter (\<lambda>col. col \<noteq> target_col) (map fst (df_columns train_data))"
  let ?y = "map Some vs"
  from run col obtain X where X: "get_columns train_data ?fc = Inr X"
    by (auto simp: feature_selection_analysis_def Let_def split: sum.splits)
  from col have t: "get_columns train_data [target_col] = Inr [(target_col, ?y)]"
    by simp
  have XY: "get_columns train_data (?fc @ [target_col]) = Inr (X @ [(target_col, ?y)])"
    by (simp add: get_columns_append X col)
  let ?tc = "sort_key (\<lambda>(f, s). desc_key_option s)
               (map (\<lambda>(name, r). (name, map_option abs r))
                  (map (\<lambda>(name, c). (name, pearson c ?y)) (X @ [(target_col, ?y)])))"
  have "(target_col, Some (1::real)) \<in> set ?tc"
    by (simp add: pearson_self [OF var])
  then have "(target_col, Some (1::real)) \<in>
             set (filter (\<lambda>(f, s). case s of None \<Rightarrow> False | Some r \<Rightarrow> r > 0.1) ?tc)"
    by simp
  then have "fst (target_col, Some (1::real)) \<in>
             fst ` set (filter (\<lambda>(f, s). case s of None \<Rightarrow> False | Some r \<Rightarrow> r > 0.1) ?tc)"
    by (rule imageI)
  then have top: "target_col \<in> set (map fst (filter (\<lambda>(f, s). case s of None \<Rightarrow> False | Some r \<Rightarrow> r > 0.1) ?tc))"
    by (simp only: set_map fst_conv)
  from run col X XY obtain top_mi top_f where
    "selected = remdups (top_mi @
        map fst (filter (\<lambda>(f, s). case s of None \<Rightarrow> False | Some r \<Rightarrow> r > 0.1) ?tc) @ top_f)"
    by (auto simp: feature_selection_analysis_def Let_def split: sum.splits if_splits)
  with top show ?thesis by simp
qed

text \<open>
  C3. The claim that the target is never selected does not hold of the code: the column
  of correlations with the target (line 68) has an entry for the target itself, of value
  1 whenever the target varies, and line 84 selects by that column's labels. On a frame
  with a constant temperature and a varying target, with mutual-information and
  F scores of zero, the selected features are the target alone.
\<close>

theorem feature_selection_selects_target:
  "map_sum id fst (feature_selection_analysis example_library selection_frame ''irradiance'') =
   Inr [''irradiance'']"
  by (simp add: feature_selection_analysis_def selection_frame_def example_library_def
      get_column_def pearson_target pearson_temperature desc_key_real_def less_eq_prod_def)

end
